theory Spec2Isabelle
  imports Complex_Main "HOL-Library.Word" "HOL-Library.Sublist"
begin

section \<open>Data model\<close>

text \<open>
  The program is the single Python module \<^verbatim>\<open>extract_vst_chunk_data.py\<close>. Exceptions are
  values of \<open>py_error\<close>; a function that may raise returns \<open>py_error + 'a\<close>, with \<open>Inl\<close>
  for the exception.
\<close>

datatype py_error = AttributeError | ValueError | EOFError | OSError

text \<open>
  A value produced by \<^verbatim>\<open>json.load\<close>: \<^verbatim>\<open>None\<close>, \<^verbatim>\<open>bool\<close>, \<^verbatim>\<open>int\<close>, \<^verbatim>\<open>float\<close> (an IEEE binary64,
  kept as its 64 bits: the search never looks inside a number), \<^verbatim>\<open>str\<close>, \<^verbatim>\<open>list\<close> and
  \<^verbatim>\<open>dict\<close>. A dict keeps its insertion order, so it is an association list; the dicts that
  \<^verbatim>\<open>json.load\<close> builds have pairwise distinct keys. Strings are byte strings here; the only
  string operation of the program compares with an ASCII suffix, which gives the same
  answer on code points and on their UTF-8 bytes.
\<close>

datatype json =
    JNull
  | JBool bool
  | JInt int
  | JFloat "64 word"
  | JString string
  | JArray "json list"
  | JObject "(string \<times> json) list"

text \<open>
  What the program does to the outside, in order: calls of the module's logger (level,
  message template as written in the source, interpolated values), prompts of
  \<^verbatim>\<open>input\<close> and calls of \<^verbatim>\<open>pyperclip.copy\<close>. The logger's level filter and the clipboard
  library are outside the program; an event stands for the call.
\<close>

datatype log_level = DEBUG | INFO | WARNING | ERROR

datatype arg = AStr string | AValues "json list"

datatype event = Log log_level string "arg list" | Prompt string | Copy json

text \<open>
  An entry of the log directory, with what \<^verbatim>\<open>stat\<close> reports and whether \<^verbatim>\<open>unlink\<close> raises on
  it (a file that is read-only or held open).
\<close>

record log_file =
  file_name :: string
  is_file :: bool
  st_mtime :: rat
  st_size :: int
  unlink_fails :: bool

text \<open>
  The state the program acts on: the lines still to be read from the console, each a list
  of Unicode code points, the entries of the log directory in the order a directory scan
  returns them, and the events so far.
\<close>

record world =
  stdin :: "nat list list"
  dir_files :: "log_file list"
  events :: "event list"

definition emit :: "event \<Rightarrow> world \<Rightarrow> world" where
  "emit e w = w\<lparr>events := events w @ [e]\<rparr>"

definition logger :: "log_level \<Rightarrow> string \<Rightarrow> arg list \<Rightarrow> world \<Rightarrow> world" where
  "logger lvl msg args w = emit (Log lvl msg args) w"

section \<open>Tree search\<close>

text \<open>\<^verbatim>\<open>obj.get(k, default)\<close>, \<^verbatim>\<open>obj.values()\<close> and \<^verbatim>\<open>s.endswith(suf)\<close>.\<close>

definition dict_get :: "(string \<times> json) list \<Rightarrow> string \<Rightarrow> json \<Rightarrow> json" where
  "dict_get kvs k dflt = (case map_of kvs k of Some v \<Rightarrow> v | None \<Rightarrow> dflt)"

definition dict_values :: "(string \<times> json) list \<Rightarrow> json list" where
  "dict_values kvs = map snd kvs"

definition endswith :: "string \<Rightarrow> string \<Rightarrow> bool" where
  "endswith s suf \<longleftrightarrow> length suf \<le> length s \<and> drop (length s - length suf) s = suf"

text \<open>
  \<^verbatim>\<open>find_chunk_data_in_json(obj, found=None)\<close>, lines 43 to 60. The accumulator \<^verbatim>\<open>found\<close> is
  a list mutated in place and handed down; here it is passed and returned.
  \<^verbatim>\<open>obj.get("plugin_path", "").endswith(...)\<close> raises \<^verbatim>\<open>AttributeError\<close> when the value
  stored under the key is not a \<^verbatim>\<open>str\<close>: none of the other JSON types has that method.
  \<open>find_chunk_data_in_each\<close> is the body shared by the two \<^verbatim>\<open>for v in ...\<close> loops; an
  exception raised in an iteration leaves the loop. The interpreter's recursion limit
  is not modelled.
\<close>

function find_chunk_data_in_json :: "json \<Rightarrow> json list option \<Rightarrow> py_error + json list"
  and find_chunk_data_in_each :: "json list \<Rightarrow> json list \<Rightarrow> py_error + json list"
where
  "find_chunk_data_in_json obj found0 =
     (let found = (case found0 of None \<Rightarrow> [] | Some f \<Rightarrow> f) in
      case obj of
        JObject kvs \<Rightarrow>
          (case dict_get kvs ''plugin_path'' (JString '''') of
             JString p \<Rightarrow>
               (let found1 =
                      (if endswith p ''reafir_standalone.dll''
                       then (let chunk = dict_get kvs ''chunk_data'' JNull in
                             if chunk \<noteq> JNull then found @ [chunk] else found)
                       else found)
                in find_chunk_data_in_each (dict_values kvs) found1)
           | _ \<Rightarrow> Inl AttributeError)
      | JArray vs \<Rightarrow> find_chunk_data_in_each vs found
      | _ \<Rightarrow> Inr found)"
| "find_chunk_data_in_each [] found = Inr found"
| "find_chunk_data_in_each (v # vs) found =
     (case find_chunk_data_in_json v (Some found) of
        Inl e \<Rightarrow> Inl e
      | Inr found' \<Rightarrow> find_chunk_data_in_each vs found')"
  by pat_completeness auto
termination
proof -
  have le: "size_list (size \<circ> snd) kvs \<le> size_list (size_prod (\<lambda>x. 0) size) kvs"
    for kvs :: "(string \<times> json) list"
    by (induction kvs) auto
  show ?thesis
    by (relation "measure (\<lambda>x. case x of Inl (v, _) \<Rightarrow> 2 * size v
                                       | Inr (vs, _) \<Rightarrow> 2 * size_list size vs + 1)")
       (auto simp: dict_values_def le less_Suc_eq_le)
qed

text \<open>
  The words of the specification. The values of a document in depth-first pre-order: a
  value, then what lies under each of its children, in their order.
\<close>

fun spec_preorder :: "json \<Rightarrow> json list" where
  "spec_preorder (JArray vs) = JArray vs # concat (map spec_preorder vs)"
| "spec_preorder (JObject kvs) = JObject kvs # concat (map (\<lambda>kv. spec_preorder (snd kv)) kvs)"
| "spec_preorder v = [v]"

text \<open>
  A Chunk Entry (a qualifying mapping): a mapping whose \<^verbatim>\<open>plugin_path\<close> is a string ending
  in the target suffix and whose \<^verbatim>\<open>chunk_data\<close> is present and not null.
\<close>

definition spec_is_chunk_entry :: "json \<Rightarrow> bool" where
  "spec_is_chunk_entry v =
     (case v of
        JObject kvs \<Rightarrow>
          (case map_of kvs ''plugin_path'' of
             Some (JString p) \<Rightarrow>
               suffix ''reafir_standalone.dll'' p \<and>
               (case map_of kvs ''chunk_data'' of Some c \<Rightarrow> c \<noteq> JNull | None \<Rightarrow> False)
           | _ \<Rightarrow> False)
      | _ \<Rightarrow> False)"

definition spec_chunk_data :: "json \<Rightarrow> json" where
  "spec_chunk_data v =
     (case v of
        JObject kvs \<Rightarrow> (case map_of kvs ''chunk_data'' of Some c \<Rightarrow> c | None \<Rightarrow> JNull)
      | _ \<Rightarrow> JNull)"

text \<open>The Match Set: the payloads of the Chunk Entries, in pre-order.\<close>

definition spec_match_set :: "json \<Rightarrow> json list" where
  "spec_match_set d = map spec_chunk_data (filter spec_is_chunk_entry (spec_preorder d))"

text \<open>
  The condition under which the search raises nothing: wherever a mapping has a
  \<^verbatim>\<open>plugin_path\<close>, it is a string.
\<close>

definition plugin_path_is_str :: "json \<Rightarrow> bool" where
  "plugin_path_is_str v =
     (case v of
        JObject kvs \<Rightarrow>
          (case map_of kvs ''plugin_path'' of
             None \<Rightarrow> True
           | Some (JString p) \<Rightarrow> True
           | Some _ \<Rightarrow> False)
      | _ \<Rightarrow> True)"

definition plugin_paths_are_strings :: "json \<Rightarrow> bool" where
  "plugin_paths_are_strings d = list_all plugin_path_is_str (spec_preorder d)"

section \<open>Driver\<close>

text \<open>
  \<^verbatim>\<open>int(input(...))\<close>, line 114. \<^verbatim>\<open>input\<close> returns a \<^verbatim>\<open>str\<close>, a sequence of Unicode code points,
  and \<^verbatim>\<open>int\<close> reads more than ASCII in it: a line of console input is therefore a list of
  code points. What \<^verbatim>\<open>int\<close> does with a code point beyond ASCII and with a long numeral
  depends on the interpreter that runs the program: on the Unicode database it was built
  with (which code points are whitespace, which are decimal digits and of what value) and
  on its limit on the number of digits of a numeral (\<^verbatim>\<open>sys.get_int_max_str_digits()\<close>, 4300
  unless configured, 0 for no limit). These are the fields of \<open>interpreter\<close>; the two tables
  are consulted on code points from 128 on only.
\<close>

record interpreter =
  unicode_isspace :: "nat \<Rightarrow> bool"
  unicode_todecimal :: "nat \<Rightarrow> nat option"
  max_str_digits :: nat

text \<open>
  \<^verbatim>\<open>Py_UNICODE_ISSPACE\<close> and \<^verbatim>\<open>Py_UNICODE_TODECIMAL\<close>: below 128 the answer is the same in every
  version of the database.
\<close>

definition Py_UNICODE_ISSPACE :: "interpreter \<Rightarrow> nat \<Rightarrow> bool" where
  "Py_UNICODE_ISSPACE it ch =
     (if ch < 128 then ch \<in> set [9, 10, 11, 12, 13, 28, 29, 30, 31, 32]
      else unicode_isspace it ch)"

definition Py_UNICODE_TODECIMAL :: "interpreter \<Rightarrow> nat \<Rightarrow> nat option" where
  "Py_UNICODE_TODECIMAL it ch =
     (if ch < 128 then (if 48 \<le> ch \<and> ch \<le> 57 then Some (ch - 48) else None)
      else unicode_todecimal it ch)"

text \<open>
  The first step of \<^verbatim>\<open>int\<close> on a \<^verbatim>\<open>str\<close>: a string that is all ASCII is taken as it is; in any
  other, a code point below 127 is kept, whitespace becomes a space, a decimal digit
  becomes the ASCII digit of its value, and at the first code point that is none of these
  the result ends with a question mark.
\<close>

fun transform_decimal_and_space_to_ascii :: "interpreter \<Rightarrow> nat list \<Rightarrow> nat list" where
  "transform_decimal_and_space_to_ascii it [] = []"
| "transform_decimal_and_space_to_ascii it (ch # s) =
     (if ch < 127 then ch # transform_decimal_and_space_to_ascii it s
      else if Py_UNICODE_ISSPACE it ch then 32 # transform_decimal_and_space_to_ascii it s
      else (case Py_UNICODE_TODECIMAL it ch of
              None \<Rightarrow> [63]
            | Some decimal \<Rightarrow> (48 + decimal) # transform_decimal_and_space_to_ascii it s))"

definition to_ascii :: "interpreter \<Rightarrow> nat list \<Rightarrow> nat list" where
  "to_ascii it s =
     (if \<forall>ch \<in> set s. ch < 128 then s else transform_decimal_and_space_to_ascii it s)"

text \<open>
  The second step reads the ASCII string in base 10: surrounding whitespace (space, tab,
  line feed, vertical tab, form feed, carriage return) is dropped, one sign is allowed,
  then come decimal digits, where single underscores may stand between digits. A numeral
  of more than 640 digits that exceeds the interpreter's limit raises \<^verbatim>\<open>ValueError\<close>, as
  does everything that is not of this form.
\<close>

definition is_space :: "nat \<Rightarrow> bool" where
  "is_space c \<longleftrightarrow> c \<in> set [32, 9, 10, 11, 12, 13]"

definition is_digit :: "nat \<Rightarrow> bool" where
  "is_digit c \<longleftrightarrow> 48 \<le> c \<and> c \<le> 57"

definition digit_value :: "nat \<Rightarrow> nat" where
  "digit_value c = c - 48"

definition strip :: "nat list \<Rightarrow> nat list" where
  "strip s = rev (dropWhile is_space (rev (dropWhile is_space s)))"

fun int_digits :: "nat list \<Rightarrow> nat list option" where
  "int_digits [] = None"
| "int_digits (c # cs) =
     (if \<not> is_digit c then None
      else (case cs of
              [] \<Rightarrow> Some [digit_value c]
            | d # r \<Rightarrow>
                (case int_digits (if d = 95 then r else cs) of
                   None \<Rightarrow> None
                 | Some ds \<Rightarrow> Some (digit_value c # ds))))"

definition long_from_string :: "nat \<Rightarrow> nat list \<Rightarrow> py_error + int" where
  "long_from_string max_digits str =
     (let t = strip str;
          (sign, body) =
            (case t of
               c # r \<Rightarrow> if c = 45 then (- 1, r) else if c = 43 then (1, r) else (1, t)
             | [] \<Rightarrow> (1, t))
      in case int_digits body of
           None \<Rightarrow> Inl ValueError
         | Some ds \<Rightarrow>
             if 640 < length ds \<and> 0 < max_digits \<and> max_digits < length ds
             then Inl ValueError
             else Inr (sign * int (foldl (\<lambda>a d. a * 10 + d) 0 ds)))"

definition py_int :: "interpreter \<Rightarrow> nat list \<Rightarrow> py_error + int" where
  "py_int it s = long_from_string (max_str_digits it) (to_ascii it s)"

text \<open>
  The \<^verbatim>\<open>while True\<close> loop of \<^verbatim>\<open>main\<close>, lines 112 to 121. \<^verbatim>\<open>input\<close> prints its prompt and
  reads one line; at the end of the input it raises \<^verbatim>\<open>EOFError\<close>, which the
  \<^verbatim>\<open>except ValueError\<close> clause does not catch.
\<close>

function main_select_loop ::
  "interpreter \<Rightarrow> string list \<Rightarrow> world \<Rightarrow> (py_error + string) \<times> world" where
  "main_select_loop it json_files w =
     (let w1 = emit (Prompt ''Please select a JSON file by number: '') w in
      case stdin w1 of
        [] \<Rightarrow> (Inl EOFError, w1)
      | line # rest \<Rightarrow>
          (let w2 = w1\<lparr>stdin := rest\<rparr> in
           case py_int it line of
             Inr selection \<Rightarrow>
               if 1 \<le> selection \<and> selection \<le> int (length json_files)
               then (Inr (json_files ! nat (selection - 1)), w2)
               else main_select_loop it json_files
                      (logger ERROR ''Invalid selection. Please try again.'' [] w2)
           | Inl e \<Rightarrow>
               if e = ValueError
               then main_select_loop it json_files
                      (logger ERROR ''Invalid input. Please try again.'' [] w2)
               else (Inl e, w2)))"
  by pat_completeness auto
termination
  by (relation "measure (\<lambda>(it, json_files, w). length (stdin w))")
     (auto simp: emit_def logger_def)

text \<open>
  Lines 108 to 122 of \<^verbatim>\<open>main\<close>: the selection among the candidate files. The list is not
  empty there (line 100 has raised otherwise).
\<close>

definition main_select_file ::
  "interpreter \<Rightarrow> string list \<Rightarrow> world \<Rightarrow> (py_error + string) \<times> world" where
  \<open>main_select_file it json_files w =
     (case (if length json_files = 1
            then (Inr (json_files ! 0),
                  logger DEBUG ''Automatically selected the only JSON file: "{selected_file}"''
                    [AStr (json_files ! 0)] w)
            else main_select_loop it json_files w) of
        (Inl e, w') \<Rightarrow> (Inl e, w')
      | (Inr selected_file, w') \<Rightarrow>
          (Inr selected_file, logger DEBUG ''{selected_file=}'' [AStr selected_file] w'))\<close>

text \<open>
  Lines 129 to 140 of \<^verbatim>\<open>main\<close>: the search on the parsed document and what is done with
  the Match Set. An exception of the search leaves \<^verbatim>\<open>main\<close>.
\<close>

definition main_copy_chunk_data :: "json \<Rightarrow> world \<Rightarrow> (py_error + unit) \<times> world" where
  "main_copy_chunk_data data w =
     (case find_chunk_data_in_json data None of
        Inl e \<Rightarrow> (Inl e, w)
      | Inr chunk_datas \<Rightarrow>
          (let w1 = logger DEBUG ''{chunk_datas=}'' [AValues chunk_datas] w;
               w2 = (if chunk_datas = [] then logger WARNING ''ReaFIR not found'' [] w1 else w1);
               w3 = (if length chunk_datas = 1
                     then logger INFO ''chunk_data copied to clipboard'' []
                            (emit (Copy (chunk_datas ! 0)) w2)
                     else if length chunk_datas = 0
                     then logger WARNING ''No chunk_data found'' [] w2
                     else logger WARNING ''Multiple chunk_data entries found; not copying'' [] w2)
           in (Inr (), w3)))"

text \<open>What was handed to the clipboard, and the warnings, among a list of events.\<close>

fun clipboard_writes :: "event list \<Rightarrow> json list" where
  "clipboard_writes [] = []"
| "clipboard_writes (Copy v # es) = v # clipboard_writes es"
| "clipboard_writes (_ # es) = clipboard_writes es"

fun warnings :: "event list \<Rightarrow> string list" where
  "warnings [] = []"
| "warnings (Log WARNING msg args # es) = msg # warnings es"
| "warnings (_ # es) = warnings es"

text \<open>
  The words of the specification for the selector. What a line of input has to be for
  \<^verbatim>\<open>int\<close> to read an integer in it is laid down by the language: the integer in base 10,
  optionally preceded by one sign, with leading zeros allowed, surrounded by whitespace,
  and with single underscores interspersed between digits; digits and whitespace are
  those of Unicode. Written out over the code points of a line: a code point is
  whitespace if it is one of tab, line feed, vertical tab, form feed, carriage return and
  space or, beyond ASCII, whitespace of the database; it is a decimal digit if it is one of
  \<^verbatim>\<open>0\<close> to \<^verbatim>\<open>9\<close> or, beyond ASCII, a decimal digit of the database. The database gives decimal
  digits a value below ten and holds none of them as whitespace, which is \<open>unicode_ok\<close>.
\<close>

definition unicode_ok :: "interpreter \<Rightarrow> bool" where
  "unicode_ok it \<longleftrightarrow>
     (\<forall>c d. unicode_todecimal it c = Some d \<longrightarrow> d < 10 \<and> \<not> unicode_isspace it c)"

definition spec_space :: "interpreter \<Rightarrow> nat \<Rightarrow> bool" where
  "spec_space it c \<longleftrightarrow> c \<in> {9, 10, 11, 12, 13, 32} \<or> (128 \<le> c \<and> unicode_isspace it c)"

definition spec_digit :: "interpreter \<Rightarrow> nat \<Rightarrow> nat option" where
  "spec_digit it c =
     (if 48 \<le> c \<and> c \<le> 57 then Some (c - 48)
      else if 128 \<le> c then unicode_todecimal it c
      else None)"

text \<open>
  \<open>spec_digits it body ds\<close>: \<open>body\<close> is a run of digits with single underscores between
  digits (code point 95), and \<open>ds\<close> are the values of its digits.
\<close>

inductive spec_digits :: "interpreter \<Rightarrow> nat list \<Rightarrow> nat list \<Rightarrow> bool" for it where
  one: "spec_digit it c = Some d \<Longrightarrow> spec_digits it [c] [d]"
| more: "spec_digit it c = Some d \<Longrightarrow> spec_digits it body ds \<Longrightarrow>
         spec_digits it (c # body) (d # ds)"
| underscore: "spec_digit it c = Some d \<Longrightarrow> spec_digits it body ds \<Longrightarrow>
         spec_digits it (c # 95 # body) (d # ds)"

code_pred spec_digits .

text \<open>The number that the digits \<open>ds\<close> stand for in positional notation.\<close>

definition spec_value :: "nat list \<Rightarrow> nat" where
  "spec_value ds = (\<Sum>i < length ds. ds ! i * 10 ^ (length ds - 1 - i))"

text \<open>
  \<open>spec_denotes it s k\<close>: the line \<open>s\<close> is an integer for the interpreter \<open>it\<close>, and \<open>k\<close> is
  that integer. The sign is \<^verbatim>\<open>+\<close> (code point 43) or \<^verbatim>\<open>-\<close> (45); a numeral of more than 640
  digits and of more digits than a limit other than 0 allows is no integer.
\<close>

definition spec_denotes :: "interpreter \<Rightarrow> nat list \<Rightarrow> int \<Rightarrow> bool" where
  "spec_denotes it s k \<longleftrightarrow>
     (\<exists>lead sg body trail ds.
        s = lead @ sg @ body @ trail \<and>
        (\<forall>c \<in> set lead. spec_space it c) \<and> (\<forall>c \<in> set trail. spec_space it c) \<and>
        (sg = [] \<or> sg = [43] \<or> sg = [45]) \<and>
        spec_digits it body ds \<and>
        \<not> (640 < length ds \<and> 0 < max_str_digits it \<and> max_str_digits it < length ds) \<and>
        k = (if sg = [45] then - int (spec_value ds) else int (spec_value ds)))"

text \<open>
  With \<open>n\<close> candidates a line is rejected when it is no integer from 1 to \<open>n\<close>, and each
  rejection is reported by one error: an integer out of range as an invalid selection,
  anything else as invalid input.
\<close>

definition spec_rejected :: "interpreter \<Rightarrow> nat \<Rightarrow> nat list \<Rightarrow> bool" where
  "spec_rejected it n s \<longleftrightarrow> \<not> (\<exists>k. spec_denotes it s k \<and> 1 \<le> k \<and> k \<le> int n)"

definition spec_report :: "interpreter \<Rightarrow> nat list \<Rightarrow> event" where
  "spec_report it s =
     (if \<exists>k. spec_denotes it s k
      then Log ERROR ''Invalid selection. Please try again.'' []
      else Log ERROR ''Invalid input. Please try again.'' [])"

definition select_prompt :: event where
  "select_prompt = Prompt ''Please select a JSON file by number: ''"

text \<open>
  An interpreter for the examples: the default limit of 4300 digits, the whitespace of
  Unicode beyond ASCII (U+0085, U+00A0, U+1680, U+2000 to U+200A, U+2028, U+2029, U+202F,
  U+205F, U+3000) and, of its decimal digits beyond ASCII, the Arabic-Indic digits U+0660
  to U+0669 and the fullwidth digits U+FF10 to U+FF19.
\<close>

definition unicode_excerpt :: interpreter where
  "unicode_excerpt =
     \<lparr>unicode_isspace =
        (\<lambda>c. c \<in> set [0x85, 0xA0, 0x1680, 0x2028, 0x2029, 0x202F, 0x205F, 0x3000] \<or>
             (0x2000 \<le> c \<and> c \<le> 0x200A)),
      unicode_todecimal =
        (\<lambda>c. if 0x660 \<le> c \<and> c \<le> 0x669 then Some (c - 0x660)
             else if 0xFF10 \<le> c \<and> c \<le> 0xFF19 then Some (c - 0xFF10)
             else None),
      max_str_digits = 4300\<rparr>"

section \<open>Duration formatter\<close>











section \<open>Log retention\<close>











section \<open>Tree search: the search and the pre-order Match Set\<close>

text \<open>Python's \<^verbatim>\<open>endswith\<close> is the suffix relation on lists.\<close>

lemma endswith_suffix: "endswith s suf \<longleftrightarrow> suffix suf s"
  unfolding endswith_def
  by (metis suffix_drop suffix_length_le length_append add_diff_cancel_right' suffixE append_eq_conv_conj)

declare find_chunk_data_in_json.simps [simp del]

lemma find_chunk_data_in_json_JObject:
  "find_chunk_data_in_json (JObject kvs) found0 =
     (case dict_get kvs ''plugin_path'' (JString []) of
        JString p \<Rightarrow>
          find_chunk_data_in_each (dict_values kvs)
            (if endswith p ''reafir_standalone.dll'' \<and> dict_get kvs ''chunk_data'' JNull \<noteq> JNull
             then (case found0 of None \<Rightarrow> [] | Some f \<Rightarrow> f) @ [dict_get kvs ''chunk_data'' JNull]
             else (case found0 of None \<Rightarrow> [] | Some f \<Rightarrow> f))
      | _ \<Rightarrow> Inl AttributeError)"
  by (simp add: find_chunk_data_in_json.simps[of "JObject kvs"] Let_def split: json.splits)

lemma find_chunk_data_in_json_JArray:
  "find_chunk_data_in_json (JArray vs) found0 =
     find_chunk_data_in_each vs (case found0 of None \<Rightarrow> [] | Some f \<Rightarrow> f)"
  by (simp add: find_chunk_data_in_json.simps[of "JArray vs"])

lemma find_chunk_data_in_json_scalar:
  "find_chunk_data_in_json JNull found0 = Inr (case found0 of None \<Rightarrow> [] | Some f \<Rightarrow> f)"
  "find_chunk_data_in_json (JBool b) found0 = Inr (case found0 of None \<Rightarrow> [] | Some f \<Rightarrow> f)"
  "find_chunk_data_in_json (JInt i) found0 = Inr (case found0 of None \<Rightarrow> [] | Some f \<Rightarrow> f)"
  "find_chunk_data_in_json (JFloat x) found0 = Inr (case found0 of None \<Rightarrow> [] | Some f \<Rightarrow> f)"
  "find_chunk_data_in_json (JString s) found0 = Inr (case found0 of None \<Rightarrow> [] | Some f \<Rightarrow> f)"
  by (simp_all add: find_chunk_data_in_json.simps[of _ found0])

lemma plugin_path_is_str_simps:
  "plugin_path_is_str (JObject kvs) =
     (case map_of kvs ''plugin_path'' of None \<Rightarrow> True | Some (JString p) \<Rightarrow> True | Some _ \<Rightarrow> False)"
  "plugin_path_is_str (JArray vs)" "plugin_path_is_str JNull" "plugin_path_is_str (JBool b)"
  "plugin_path_is_str (JInt i)" "plugin_path_is_str (JFloat x)" "plugin_path_is_str (JString s)"
  by (simp_all add: plugin_path_is_str_def)

lemma spec_is_chunk_entry_simps:
  "spec_is_chunk_entry (JObject kvs) =
     (case map_of kvs ''plugin_path'' of
        Some (JString p) \<Rightarrow>
          suffix ''reafir_standalone.dll'' p \<and>
          (case map_of kvs ''chunk_data'' of Some c \<Rightarrow> c \<noteq> JNull | None \<Rightarrow> False)
      | _ \<Rightarrow> False)"
  "\<not> spec_is_chunk_entry (JArray vs)" "\<not> spec_is_chunk_entry JNull" "\<not> spec_is_chunk_entry (JBool b)"
  "\<not> spec_is_chunk_entry (JInt i)" "\<not> spec_is_chunk_entry (JFloat x)" "\<not> spec_is_chunk_entry (JString s)"
  by (simp_all add: spec_is_chunk_entry_def)

lemma spec_chunk_data_JObject:
  "spec_chunk_data (JObject kvs) = dict_get kvs ''chunk_data'' JNull"
  by (simp add: spec_chunk_data_def dict_get_def)

lemma spec_preorder_JObject:
  "spec_preorder (JObject kvs) = JObject kvs # concat (map spec_preorder (dict_values kvs))"
  by (simp add: dict_values_def comp_def)

lemma find_in_each_from_elements:
  assumes "\<And>v f0. v \<in> set vs \<Longrightarrow>
            find_chunk_data_in_json v f0 =
              (if list_all plugin_path_is_str (spec_preorder v)
               then Inr ((case f0 of None \<Rightarrow> [] | Some f \<Rightarrow> f) @ spec_match_set v)
               else Inl AttributeError)"
  shows "find_chunk_data_in_each vs found =
     (if list_all plugin_path_is_str (concat (map spec_preorder vs))
      then Inr (found @ concat (map spec_match_set vs))
      else Inl AttributeError)"
  using assms
proof (induction vs arbitrary: found)
  case Nil
  show ?case by simp
next
  case (Cons v vs)
  have hd: "find_chunk_data_in_json v (Some found) =
              (if list_all plugin_path_is_str (spec_preorder v)
               then Inr (found @ spec_match_set v) else Inl AttributeError)"
    using Cons.prems[of v "Some found"] by simp
  have tl: "find_chunk_data_in_each vs f =
     (if list_all plugin_path_is_str (concat (map spec_preorder vs))
      then Inr (f @ concat (map spec_match_set vs))
      else Inl AttributeError)" for f
    using Cons.IH[of f] Cons.prems by simp
  show ?case
    by (simp add: hd tl)
qed

lemma spec_match_set_JObject:
  "spec_match_set (JObject kvs) =
     (if spec_is_chunk_entry (JObject kvs) then [dict_get kvs ''chunk_data'' JNull] else [])
     @ concat (map spec_match_set (dict_values kvs))"
  by (simp add: spec_match_set_def[abs_def] spec_preorder_JObject spec_chunk_data_JObject
      map_concat filter_concat comp_def del: spec_preorder.simps(2))

lemma spec_match_set_JArray:
  "spec_match_set (JArray vs) = concat (map spec_match_set vs)"
  by (simp add: spec_match_set_def[abs_def] spec_is_chunk_entry_simps map_concat filter_concat comp_def)

lemma find_chunk_data_characterisation:
  "find_chunk_data_in_json d found0 =
     (if list_all plugin_path_is_str (spec_preorder d)
      then Inr ((case found0 of None \<Rightarrow> [] | Some f \<Rightarrow> f) @ spec_match_set d)
      else Inl AttributeError)"
proof (induction d arbitrary: found0)
  case (JArray vs)
  have "find_chunk_data_in_each vs found =
     (if list_all plugin_path_is_str (concat (map spec_preorder vs))
      then Inr (found @ concat (map spec_match_set vs))
      else Inl AttributeError)" for found
    by (rule find_in_each_from_elements) (rule JArray)
  then show ?case
    by (simp add: find_chunk_data_in_json_JArray spec_match_set_JArray plugin_path_is_str_simps)
next
  case (JObject kvs)
  have each: "find_chunk_data_in_each (dict_values kvs) found =
     (if list_all plugin_path_is_str (concat (map spec_preorder (dict_values kvs)))
      then Inr (found @ concat (map spec_match_set (dict_values kvs)))
      else Inl AttributeError)" for found
  proof (rule find_in_each_from_elements)
    fix v f0 assume "v \<in> set (dict_values kvs)"
    then obtain kv where "kv \<in> set kvs" "v = snd kv"
      by (auto simp: dict_values_def)
    have "snd kv \<in> Basic_BNFs.snds kv"
      by (rule snds.intros)
    then have "v \<in> Basic_BNFs.snds kv"
      by (simp add: \<open>v = snd kv\<close>)
    with \<open>kv \<in> set kvs\<close> show "find_chunk_data_in_json v f0 =
              (if list_all plugin_path_is_str (spec_preorder v)
               then Inr ((case f0 of None \<Rightarrow> [] | Some f \<Rightarrow> f) @ spec_match_set v)
               else Inl AttributeError)"
      by (rule JObject)
  qed
  show ?case
  proof (cases "map_of kvs ''plugin_path''")
    case None
    then show ?thesis
      by (simp add: find_chunk_data_in_json_JObject spec_preorder_JObject each
          spec_match_set_JObject dict_get_def plugin_path_is_str_simps endswith_def
          spec_is_chunk_entry_simps del: spec_preorder.simps(2))
  next
    case (Some pp)
    show ?thesis
    proof (cases pp)
      case (JString p)
      with Some show ?thesis
        by (auto simp add: find_chunk_data_in_json_JObject spec_preorder_JObject each
            spec_match_set_JObject dict_get_def plugin_path_is_str_simps endswith_suffix
            spec_is_chunk_entry_simps simp del: spec_preorder.simps(2) split: option.splits)
    qed (use Some in \<open>simp_all add: find_chunk_data_in_json_JObject dict_get_def
           plugin_path_is_str_simps\<close>)
  qed
qed (simp_all add: find_chunk_data_in_json_scalar plugin_path_is_str_simps
       spec_match_set_def spec_is_chunk_entry_simps)


lemma find_chunk_data_in_each_characterisation:
  "find_chunk_data_in_each vs found =
     (if list_all plugin_path_is_str (concat (map spec_preorder vs))
      then Inr (found @ concat (map spec_match_set vs))
      else Inl AttributeError)"
  by (rule find_in_each_from_elements) (rule find_chunk_data_characterisation)

lemma find_chunk_data_top:
  "find_chunk_data_in_json d None =
     (if plugin_paths_are_strings d then Inr (spec_match_set d) else Inl AttributeError)"
  by (simp add: find_chunk_data_characterisation plugin_paths_are_strings_def)

section \<open>Tree search: claims\<close>

text \<open>
  C1, as amended. In a document where every \<^verbatim>\<open>plugin_path\<close> that is present holds a
  string, and which contains exactly one mapping whose \<^verbatim>\<open>plugin_path\<close> ends in the target
  suffix and whose \<^verbatim>\<open>chunk_data\<close> is present and not null, the search returns the Match Set
  with that mapping's \<^verbatim>\<open>chunk_data\<close> as its only element.
\<close>

theorem single_chunk_entry_found:
  assumes "plugin_paths_are_strings d"
    and "filter spec_is_chunk_entry (spec_preorder d) = [m]"
  shows "find_chunk_data_in_json d None = Inr [spec_chunk_data m]"
  using assms by (simp add: find_chunk_data_top spec_match_set_def)

text \<open>C1 at a scene file with one filter entry nested under a list.\<close>

theorem single_chunk_entry_found_witness:
  "plugin_paths_are_strings
     (JObject [(''sources'', JArray [JObject [(''plugin_path'', JString ''C:/vst/reafir_standalone.dll''),
                                              (''chunk_data'', JString ''AAEC'')]])]) \<and>
   filter spec_is_chunk_entry
     (spec_preorder
       (JObject [(''sources'', JArray [JObject [(''plugin_path'', JString ''C:/vst/reafir_standalone.dll''),
                                                (''chunk_data'', JString ''AAEC'')]])])) =
     [JObject [(''plugin_path'', JString ''C:/vst/reafir_standalone.dll''),
               (''chunk_data'', JString ''AAEC'')]] \<and>
   find_chunk_data_in_json
     (JObject [(''sources'', JArray [JObject [(''plugin_path'', JString ''C:/vst/reafir_standalone.dll''),
                                              (''chunk_data'', JString ''AAEC'')]])]) None =
     Inr [JString ''AAEC'']"
proof -
  let ?m = "JObject [(''plugin_path'', JString ''C:/vst/reafir_standalone.dll''),
                     (''chunk_data'', JString ''AAEC'')]"
  let ?d = "JObject [(''sources'', JArray [?m])]"
  have ok: "plugin_paths_are_strings ?d"
    by (simp add: plugin_paths_are_strings_def plugin_path_is_str_simps)
  have one: "filter spec_is_chunk_entry (spec_preorder ?d) = [?m]"
    by (simp add: spec_is_chunk_entry_simps suffix_def)
  have "spec_chunk_data ?m = JString ''AAEC''"
    by (simp add: spec_chunk_data_def)
  with single_chunk_entry_found [OF ok one] ok one show ?thesis
    by simp
qed

text \<open>
  C1 as stated fails: this list holds exactly one qualifying mapping, and a mapping whose
  \<^verbatim>\<open>plugin_path\<close> is \<^verbatim>\<open>null\<close>; the search raises \<^verbatim>\<open>AttributeError\<close> on the latter and returns
  no Match Set.
\<close>

theorem single_chunk_entry_counterexample:
  "filter spec_is_chunk_entry
     (spec_preorder
       (JArray [JObject [(''plugin_path'', JNull)],
                JObject [(''plugin_path'', JString ''reafir_standalone.dll''),
                         (''chunk_data'', JString ''X'')]])) =
     [JObject [(''plugin_path'', JString ''reafir_standalone.dll''), (''chunk_data'', JString ''X'')]] \<and>
   find_chunk_data_in_json
     (JArray [JObject [(''plugin_path'', JNull)],
              JObject [(''plugin_path'', JString ''reafir_standalone.dll''),
                       (''chunk_data'', JString ''X'')]]) None = Inl AttributeError"
  by (simp add: spec_is_chunk_entry_simps find_chunk_data_top plugin_paths_are_strings_def
      plugin_path_is_str_simps)

text \<open>
  C2, as amended. In a document where every \<^verbatim>\<open>plugin_path\<close> that is present holds a
  string, the search returns the payloads of the qualifying mappings in depth-first
  pre-order (a mapping before what lies under its values, the values of a mapping and the
  elements of a sequence in their order), one element for each qualifying mapping; and
  on the document \<^verbatim>\<open>{"a": {...}, "b": [{...}]}\<close> of the specification the Match Set is
  \<^verbatim>\<open>["X", "Y"]\<close>.
\<close>

theorem match_set_in_preorder:
  "(plugin_paths_are_strings d \<longrightarrow>
      find_chunk_data_in_json d None = Inr (spec_match_set d) \<and>
      length (spec_match_set d) = length (filter spec_is_chunk_entry (spec_preorder d))) \<and>
   find_chunk_data_in_json
     (JObject
       [(''a'', JObject [(''plugin_path'', JString ''...reafir_standalone.dll''),
                         (''chunk_data'', JString ''X'')]),
        (''b'', JArray [JObject [(''plugin_path'', JString ''...reafir_standalone.dll''),
                                 (''chunk_data'', JString ''Y'')]])]) None =
     Inr [JString ''X'', JString ''Y'']"
proof -
  have "find_chunk_data_in_json
     (JObject
       [(''a'', JObject [(''plugin_path'', JString ''...reafir_standalone.dll''),
                         (''chunk_data'', JString ''X'')]),
        (''b'', JArray [JObject [(''plugin_path'', JString ''...reafir_standalone.dll''),
                                 (''chunk_data'', JString ''Y'')]])]) None =
     Inr [JString ''X'', JString ''Y'']"
    by (simp add: find_chunk_data_in_json_JObject find_chunk_data_in_json_JArray
        find_chunk_data_in_json_scalar dict_get_def dict_values_def endswith_def)
  then show ?thesis
    by (simp add: find_chunk_data_top spec_match_set_def)
qed

text \<open>
  C2 at a qualifying mapping whose payload is itself a qualifying mapping: the outer payload
  is appended before the search descends to the inner one.
\<close>

theorem match_set_in_preorder_witness:
  "plugin_paths_are_strings
     (JObject [(''plugin_path'', JString ''reafir_standalone.dll''),
               (''chunk_data'', JObject [(''plugin_path'', JString ''x/reafir_standalone.dll''),
                                         (''chunk_data'', JString ''inner'')])]) \<and>
   find_chunk_data_in_json
     (JObject [(''plugin_path'', JString ''reafir_standalone.dll''),
               (''chunk_data'', JObject [(''plugin_path'', JString ''x/reafir_standalone.dll''),
                                         (''chunk_data'', JString ''inner'')])]) None =
     Inr [JObject [(''plugin_path'', JString ''x/reafir_standalone.dll''),
                   (''chunk_data'', JString ''inner'')],
          JString ''inner'']"
proof -
  let ?d = "JObject [(''plugin_path'', JString ''reafir_standalone.dll''),
               (''chunk_data'', JObject [(''plugin_path'', JString ''x/reafir_standalone.dll''),
                                         (''chunk_data'', JString ''inner'')])]"
  have ok: "plugin_paths_are_strings ?d"
    by (simp add: plugin_paths_are_strings_def plugin_path_is_str_simps)
  have ms: "spec_match_set ?d =
     [JObject [(''plugin_path'', JString ''x/reafir_standalone.dll''),
               (''chunk_data'', JString ''inner'')], JString ''inner'']"
    by (simp add: spec_match_set_def spec_is_chunk_entry_simps spec_chunk_data_def suffix_def)
  from match_set_in_preorder [of ?d] ok ms show ?thesis
    by simp
qed

text \<open>
  C2 as stated fails: this list holds two qualifying mappings and then a mapping whose
  \<^verbatim>\<open>plugin_path\<close> is a number; the search raises and yields no elements at all.
\<close>

theorem match_set_in_preorder_counterexample:
  "length (filter spec_is_chunk_entry
     (spec_preorder
       (JArray [JObject [(''plugin_path'', JString ''reafir_standalone.dll''), (''chunk_data'', JString ''X'')],
                JObject [(''plugin_path'', JString ''reafir_standalone.dll''), (''chunk_data'', JString ''Y'')],
                JObject [(''plugin_path'', JInt 0)]]))) = 2 \<and>
   find_chunk_data_in_json
     (JArray [JObject [(''plugin_path'', JString ''reafir_standalone.dll''), (''chunk_data'', JString ''X'')],
              JObject [(''plugin_path'', JString ''reafir_standalone.dll''), (''chunk_data'', JString ''Y'')],
              JObject [(''plugin_path'', JInt 0)]]) None = Inl AttributeError"
  by (simp add: spec_is_chunk_entry_simps find_chunk_data_in_json_JObject
      find_chunk_data_in_json_JArray find_chunk_data_in_json_scalar dict_get_def
      dict_values_def endswith_def)

text \<open>
  C3, as amended. A mapping whose \<^verbatim>\<open>plugin_path\<close> ends in the suffix but whose \<^verbatim>\<open>chunk_data\<close>
  is absent or null is no Chunk Entry, and the search appends nothing for it and raises
  nothing at it: it goes on to the mapping's values with the accumulator unchanged. In a
  document where every \<^verbatim>\<open>plugin_path\<close> that is present holds a string and that has no
  qualifying mapping, the Match Set is empty; so it is for
  \<^verbatim>\<open>{"plugin_path": "foo/reafir_standalone.dll"}\<close>, and for a suffix in upper case, the
  comparison being case-sensitive.
\<close>

theorem no_chunk_data_no_entry:
  "(map_of kvs ''plugin_path'' = Some (JString p) \<and> suffix ''reafir_standalone.dll'' p \<and>
    (map_of kvs ''chunk_data'' = None \<or> map_of kvs ''chunk_data'' = Some JNull) \<longrightarrow>
      \<not> spec_is_chunk_entry (JObject kvs) \<and>
      find_chunk_data_in_json (JObject kvs) found0 =
        find_chunk_data_in_each (dict_values kvs) (case found0 of None \<Rightarrow> [] | Some f \<Rightarrow> f)) \<and>
   (plugin_paths_are_strings d \<and> filter spec_is_chunk_entry (spec_preorder d) = [] \<longrightarrow>
      find_chunk_data_in_json d None = Inr []) \<and>
   find_chunk_data_in_json
     (JObject [(''plugin_path'', JString ''foo/reafir_standalone.dll'')]) None = Inr [] \<and>
   find_chunk_data_in_json
     (JObject [(''plugin_path'', JString ''foo/REAFIR_STANDALONE.DLL''),
               (''chunk_data'', JString ''X'')]) None = Inr []"
proof -
  have a: "\<not> spec_is_chunk_entry (JObject kvs) \<and>
      find_chunk_data_in_json (JObject kvs) found0 =
        find_chunk_data_in_each (dict_values kvs) (case found0 of None \<Rightarrow> [] | Some f \<Rightarrow> f)"
    if "map_of kvs ''plugin_path'' = Some (JString p)"
      and "map_of kvs ''chunk_data'' = None \<or> map_of kvs ''chunk_data'' = Some JNull"
    using that
    by (auto simp: spec_is_chunk_entry_simps find_chunk_data_in_json_JObject dict_get_def)
  have b: "find_chunk_data_in_json d None = Inr []"
    if "plugin_paths_are_strings d" "filter spec_is_chunk_entry (spec_preorder d) = []"
    using that by (simp add: find_chunk_data_top spec_match_set_def)
  have c: "find_chunk_data_in_json
     (JObject [(''plugin_path'', JString ''foo/reafir_standalone.dll'')]) None = Inr []"
    by (simp add: find_chunk_data_in_json_JObject find_chunk_data_in_json_scalar
        dict_get_def dict_values_def endswith_def)
  have d: "find_chunk_data_in_json
     (JObject [(''plugin_path'', JString ''foo/REAFIR_STANDALONE.DLL''),
               (''chunk_data'', JString ''X'')]) None = Inr []"
    by (simp add: find_chunk_data_in_json_JObject find_chunk_data_in_json_scalar
        dict_get_def dict_values_def endswith_def)
  from a b c d show ?thesis by blast
qed

text \<open>
  C3 at a matching mapping with a null payload, searched with a non-empty accumulator, and
  at a document whose only \<^verbatim>\<open>plugin_path\<close> names another plugin.
\<close>

theorem no_chunk_data_no_entry_witness:
  "find_chunk_data_in_json
     (JObject [(''plugin_path'', JString ''foo/reafir_standalone.dll''), (''chunk_data'', JNull)])
     (Some [JString ''before'']) = Inr [JString ''before''] \<and>
   plugin_paths_are_strings (JArray [JObject [(''plugin_path'', JString ''foo/other.dll''),
                                              (''chunk_data'', JString ''Z'')]]) \<and>
   find_chunk_data_in_json (JArray [JObject [(''plugin_path'', JString ''foo/other.dll''),
                                             (''chunk_data'', JString ''Z'')]]) None = Inr []"
proof -
  let ?kvs = "[(''plugin_path'', JString ''foo/reafir_standalone.dll''), (''chunk_data'', JNull)]"
  let ?d = "JArray [JObject [(''plugin_path'', JString ''foo/other.dll''),
                             (''chunk_data'', JString ''Z'')]]"
  have h1: "map_of ?kvs ''plugin_path'' = Some (JString ''foo/reafir_standalone.dll'') \<and>
            suffix ''reafir_standalone.dll'' ''foo/reafir_standalone.dll'' \<and>
            (map_of ?kvs ''chunk_data'' = None \<or> map_of ?kvs ''chunk_data'' = Some JNull)"
    by (simp add: suffix_def)
  have h2: "plugin_paths_are_strings ?d \<and> filter spec_is_chunk_entry (spec_preorder ?d) = []"
    by (simp add: plugin_paths_are_strings_def plugin_path_is_str_simps spec_is_chunk_entry_simps
        suffix_def)
  have each: "find_chunk_data_in_each (dict_values ?kvs) [JString ''before''] = Inr [JString ''before'']"
    by (simp add: dict_values_def find_chunk_data_in_json_scalar)
  from no_chunk_data_no_entry
         [of ?kvs "''foo/reafir_standalone.dll''" "Some [JString ''before'']" ?d] h1 h2 each
  show ?thesis by simp
qed

text \<open>
  C3 as stated fails: this document has no qualifying mapping, and the search raises
  \<^verbatim>\<open>AttributeError\<close> instead of returning the empty Match Set.
\<close>

theorem no_chunk_data_no_entry_counterexample:
  "filter spec_is_chunk_entry (spec_preorder (JObject [(''plugin_path'', JBool False)])) = [] \<and>
   find_chunk_data_in_json (JObject [(''plugin_path'', JBool False)]) None = Inl AttributeError"
  by (simp add: spec_is_chunk_entry_simps find_chunk_data_in_json_JObject dict_get_def)

text \<open>
  C9. The search returns a Match Set exactly when every \<^verbatim>\<open>plugin_path\<close> that is present in
  the document holds a string, and raises \<^verbatim>\<open>AttributeError\<close> otherwise, as on
  \<^verbatim>\<open>{"plugin_path": 5}\<close>. (Termination is part of the definition of the search.)
\<close>

theorem search_total_iff_plugin_paths_strings:
  "((\<exists>found. find_chunk_data_in_json d None = Inr found) \<longleftrightarrow> plugin_paths_are_strings d) \<and>
   (\<not> plugin_paths_are_strings d \<longrightarrow> find_chunk_data_in_json d None = Inl AttributeError) \<and>
   \<not> plugin_paths_are_strings (JObject [(''plugin_path'', JInt 5)]) \<and>
   find_chunk_data_in_json (JObject [(''plugin_path'', JInt 5)]) None = Inl AttributeError"
  by (simp add: find_chunk_data_top plugin_paths_are_strings_def plugin_path_is_str_simps)

text \<open>C9 at a document that is searched without error and at one that is not.\<close>

theorem search_total_iff_plugin_paths_strings_witness:
  "plugin_paths_are_strings
     (JObject [(''name'', JString ''Scene''),
               (''filters'', JArray [JObject [(''plugin_path'', JString ''C:/vst/other.dll'')],
                                     JInt 3, JNull])]) \<and>
   (\<exists>found. find_chunk_data_in_json
     (JObject [(''name'', JString ''Scene''),
               (''filters'', JArray [JObject [(''plugin_path'', JString ''C:/vst/other.dll'')],
                                     JInt 3, JNull])]) None = Inr found) \<and>
   \<not> plugin_paths_are_strings (JArray [JObject [(''plugin_path'', JArray [])]]) \<and>
   find_chunk_data_in_json (JArray [JObject [(''plugin_path'', JArray [])]]) None = Inl AttributeError"
proof -
  let ?d = "JObject [(''name'', JString ''Scene''),
               (''filters'', JArray [JObject [(''plugin_path'', JString ''C:/vst/other.dll'')],
                                     JInt 3, JNull])]"
  let ?e = "JArray [JObject [(''plugin_path'', JArray [])]]"
  have ok: "plugin_paths_are_strings ?d"
    by (simp add: plugin_paths_are_strings_def plugin_path_is_str_simps)
  have bad: "\<not> plugin_paths_are_strings ?e"
    by (simp add: plugin_paths_are_strings_def plugin_path_is_str_simps)
  from search_total_iff_plugin_paths_strings [of ?d] ok
       search_total_iff_plugin_paths_strings [of ?e] bad
  show ?thesis by blast
qed

text \<open>
  C10, as amended. Take any document in which every \<^verbatim>\<open>plugin_path\<close> that is present holds a
  string, and any mapping anywhere in it whose \<^verbatim>\<open>plugin_path\<close> ends in the suffix and whose
  \<^verbatim>\<open>chunk_data\<close> is anything but null, of whatever type and however empty. The search of
  the document returns a Match Set, and that value, as it is, is one of its elements.
  At the mapping itself the value is appended to the accumulator before the mapping's
  values are searched.
\<close>

theorem chunk_data_appended_unchecked:
  assumes "JObject kvs \<in> set (spec_preorder d)"
    and "plugin_paths_are_strings d"
    and "map_of kvs ''plugin_path'' = Some (JString p)"
    and "suffix ''reafir_standalone.dll'' p"
    and "map_of kvs ''chunk_data'' = Some c"
    and "c \<noteq> JNull"
  shows "(\<exists>r. find_chunk_data_in_json d None = Inr r \<and> c \<in> set r) \<and>
         find_chunk_data_in_json (JObject kvs) found0 =
           find_chunk_data_in_each (dict_values kvs)
             ((case found0 of None \<Rightarrow> [] | Some f \<Rightarrow> f) @ [c])"
proof -
  from assms(3-6) have entry: "spec_is_chunk_entry (JObject kvs)"
    and payload: "spec_chunk_data (JObject kvs) = c"
    by (simp_all add: spec_is_chunk_entry_simps spec_chunk_data_def)
  from assms(1) entry have "JObject kvs \<in> set (filter spec_is_chunk_entry (spec_preorder d))"
    by simp
  then have "spec_chunk_data (JObject kvs) \<in> set (spec_match_set d)"
    unfolding spec_match_set_def by (simp only: set_map) (rule imageI)
  with payload have "c \<in> set (spec_match_set d)"
    by simp
  with assms(2) have whole: "\<exists>r. find_chunk_data_in_json d None = Inr r \<and> c \<in> set r"
    by (simp add: find_chunk_data_top)
  have step: "find_chunk_data_in_json (JObject kvs) found0 =
           find_chunk_data_in_each (dict_values kvs)
             ((case found0 of None \<Rightarrow> [] | Some f \<Rightarrow> f) @ [c])"
    using assms(3-6) by (simp add: find_chunk_data_in_json_JObject dict_get_def endswith_suffix)
  from whole step show ?thesis ..
qed

text \<open>
  C10 at a filter entry nested under a mapping and a list, with the payloads \<open>0\<close> and
  empty mapping: each is an element of the Match Set the search returns.
\<close>

theorem chunk_data_appended_unchecked_witness:
  "plugin_paths_are_strings
     (JObject [(''filters'',
        JArray [JObject [(''plugin_path'', JString ''C:/vst/reafir_standalone.dll''),
                         (''chunk_data'', JInt 0)]])]) \<and>
   (\<exists>r. find_chunk_data_in_json
     (JObject [(''filters'',
        JArray [JObject [(''plugin_path'', JString ''C:/vst/reafir_standalone.dll''),
                         (''chunk_data'', JInt 0)]])]) None = Inr r \<and> JInt 0 \<in> set r) \<and>
   (\<exists>r. find_chunk_data_in_json
     (JObject [(''filters'',
        JArray [JObject [(''plugin_path'', JString ''C:/vst/reafir_standalone.dll''),
                         (''chunk_data'', JObject [])]])]) None = Inr r \<and> JObject [] \<in> set r)"
proof -
  have sfx: "suffix ''reafir_standalone.dll'' ''C:/vst/reafir_standalone.dll''"
    by (simp add: suffix_def)
  have at: "JObject [(''plugin_path'', JString ''C:/vst/reafir_standalone.dll''), (''chunk_data'', c)]
      \<in> set (spec_preorder
          (JObject [(''filters'',
             JArray [JObject [(''plugin_path'', JString ''C:/vst/reafir_standalone.dll''),
                              (''chunk_data'', c)]])]))" for c
    by simp
  have ok0: "plugin_paths_are_strings
     (JObject [(''filters'',
        JArray [JObject [(''plugin_path'', JString ''C:/vst/reafir_standalone.dll''),
                         (''chunk_data'', JInt 0)]])])"
    by (simp add: plugin_paths_are_strings_def plugin_path_is_str_simps)
  have ok1: "plugin_paths_are_strings
     (JObject [(''filters'',
        JArray [JObject [(''plugin_path'', JString ''C:/vst/reafir_standalone.dll''),
                         (''chunk_data'', JObject [])]])])"
    by (simp add: plugin_paths_are_strings_def plugin_path_is_str_simps)
  have t0: "\<exists>r. find_chunk_data_in_json
     (JObject [(''filters'',
        JArray [JObject [(''plugin_path'', JString ''C:/vst/reafir_standalone.dll''),
                         (''chunk_data'', JInt 0)]])]) None = Inr r \<and> JInt 0 \<in> set r"
    using chunk_data_appended_unchecked [OF at ok0 _ sfx, of "JInt 0"]
    by simp
  have t1: "\<exists>r. find_chunk_data_in_json
     (JObject [(''filters'',
        JArray [JObject [(''plugin_path'', JString ''C:/vst/reafir_standalone.dll''),
                         (''chunk_data'', JObject [])]])]) None = Inr r \<and> JObject [] \<in> set r"
    using chunk_data_appended_unchecked [OF at ok1 _ sfx, of "JObject []"]
    by simp
  from ok0 t0 t1 show ?thesis by blast
qed

text \<open>
  C10 as stated fails: the second mapping of this list has a matching \<^verbatim>\<open>plugin_path\<close> and the
  payload \<^verbatim>\<open>""\<close>, which is not null, but the search raises \<^verbatim>\<open>AttributeError\<close> at the first
  mapping and appends nothing to any Match Set.
\<close>

theorem chunk_data_appended_unchecked_counterexample:
  "JObject [(''plugin_path'', JString ''reafir_standalone.dll''), (''chunk_data'', JString '''')]
     \<in> set (spec_preorder
          (JArray [JObject [(''plugin_path'', JArray [])],
                   JObject [(''plugin_path'', JString ''reafir_standalone.dll''),
                            (''chunk_data'', JString '''')]])) \<and>
   find_chunk_data_in_json
     (JArray [JObject [(''plugin_path'', JArray [])],
              JObject [(''plugin_path'', JString ''reafir_standalone.dll''),
                       (''chunk_data'', JString '''')]]) None = Inl AttributeError"
  by (simp add: find_chunk_data_in_json_JObject find_chunk_data_in_json_JArray dict_get_def)

section \<open>Driver: what \<^verbatim>\<open>int\<close> reads\<close>

text \<open>
  \<^verbatim>\<open>int\<close> returns \<open>k\<close> on a line exactly when the line is an integer in the sense of
  \<open>spec_denotes\<close> and \<open>k\<close> is that integer; on any other line it raises \<^verbatim>\<open>ValueError\<close>.
\<close>

lemma spec_value_Cons:
  "spec_value (d # ds) = d * 10 ^ length ds + spec_value ds"
proof -
  have "(\<Sum>i < Suc (length ds). (d # ds) ! i * 10 ^ (Suc (length ds) - 1 - i)) =
        (d # ds) ! 0 * 10 ^ (Suc (length ds) - 1 - 0) +
        (\<Sum>i < length ds. (d # ds) ! Suc i * 10 ^ (Suc (length ds) - 1 - Suc i))"
    by (rule sum.lessThan_Suc_shift)
  then show ?thesis
    by (simp add: spec_value_def)
qed

lemma foldl_spec_value:
  "foldl (\<lambda>a d. a * 10 + d) a ds = a * 10 ^ length ds + spec_value ds"
proof (induction ds arbitrary: a)
  case Nil
  show ?case by (simp add: spec_value_def)
next
  case (Cons d ds)
  have "foldl (\<lambda>a d. a * 10 + d) (a * 10 + d) ds =
          (a * 10 + d) * 10 ^ length ds + spec_value ds"
    by (rule Cons.IH)
  then show ?case
    by (simp add: spec_value_Cons algebra_simps)
qed

lemma int_digits_spec_digits:
  assumes "spec_digits it body ds"
    and "\<forall>c \<in> set body. spec_digit it c = (if is_digit c then Some (digit_value c) else None)"
  shows "int_digits body = Some ds"
  using assms
proof (induction rule: spec_digits.induct)
  case (one c d)
  then show ?case by (auto split: if_splits)
next
  case (more c d body ds)
  then have b: "int_digits body = Some ds" by simp
  from more.hyps(2) obtain e r where r: "body = e # r" "e \<noteq> 95"
    using more.prems by (cases rule: spec_digits.cases) (auto simp: is_digit_def split: if_splits)
  with more b show ?case by (auto split: if_splits)
next
  case (underscore c d body ds)
  then show ?case by (auto split: if_splits)
qed

lemma spec_digits_int_digits:
  assumes "int_digits body = Some ds"
    and "\<forall>c \<in> set body. spec_digit it c = (if is_digit c then Some (digit_value c) else None)"
  shows "spec_digits it body ds"
  using assms
proof (induction body arbitrary: ds rule: int_digits.induct)
  case 1
  then show ?case by simp
next
  case (2 c cs)
  show ?case
  proof (cases cs)
    case Nil
    with 2 show ?thesis by (auto split: if_splits intro: spec_digits.one)
  next
    case (Cons d r)
    show ?thesis
    proof (cases "d = 95")
      case True
      with 2 Cons show ?thesis
        by (auto split: if_splits option.splits intro!: spec_digits.underscore)
    next
      case False
      with 2 Cons show ?thesis
        by (auto split: if_splits option.splits intro!: spec_digits.more)
    qed
  qed
qed


lemma strip_sandwich:
  assumes "\<forall>c \<in> set lead. is_space c" and "\<forall>c \<in> set trail. is_space c"
    and "mid \<noteq> []" and "\<not> is_space (hd mid)" and "\<not> is_space (last mid)"
  shows "strip (lead @ mid @ trail) = mid"
proof -
  from assms(3,4) have m: "dropWhile is_space (mid @ trail) = mid @ trail"
    by (cases mid) simp_all
  from assms(1) have a: "dropWhile is_space (lead @ mid @ trail) = mid @ trail"
    by (simp add: dropWhile_append2 m)
  from assms(3,5) have r: "dropWhile is_space (rev mid) = rev mid"
    by (cases mid rule: rev_cases) simp_all
  have "dropWhile is_space (rev trail @ rev mid) = dropWhile is_space (rev mid)"
    by (rule dropWhile_append2) (use assms(2) in auto)
  with r have b: "dropWhile is_space (rev trail @ rev mid) = rev mid"
    by simp
  show ?thesis
    by (simp add: strip_def a b)
qed

lemma strip_decomp:
  "\<exists>lead trail. s = lead @ strip s @ trail \<and>
     (\<forall>c \<in> set lead. is_space c) \<and> (\<forall>c \<in> set trail. is_space c)"
proof -
  let ?u = "dropWhile is_space s"
  have 1: "s = takeWhile is_space s @ ?u"
    by simp
  have "rev (dropWhile is_space (rev ?u)) @ rev (takeWhile is_space (rev ?u)) =
        rev (takeWhile is_space (rev ?u) @ dropWhile is_space (rev ?u))"
    by (simp only: rev_append)
  also have "\<dots> = rev (rev ?u)"
    by (simp only: takeWhile_dropWhile_id)
  also have "\<dots> = ?u"
    by simp
  finally have 2: "?u = strip s @ rev (takeWhile is_space (rev ?u))"
    by (simp add: strip_def)
  have 3: "\<forall>c \<in> set (takeWhile is_space s). is_space c"
    by (auto dest: set_takeWhileD)
  have 4: "\<forall>c \<in> set (rev (takeWhile is_space (rev ?u))). is_space c"
    by (auto dest: set_takeWhileD)
  from 1 2 have "s = takeWhile is_space s @ strip s @ rev (takeWhile is_space (rev ?u))"
    by metis
  with 3 4 show ?thesis
    by blast
qed

lemma spec_digits_ends:
  "spec_digits it body ds \<Longrightarrow>
     body \<noteq> [] \<and> spec_digit it (hd body) \<noteq> None \<and> spec_digit it (last body) \<noteq> None"
  by (induction rule: spec_digits.induct) auto

lemma long_from_string_parts:
  assumes "strip b = sg @ body"
    and "sg = [45] \<or> sg = [43] \<or> (sg = [] \<and> (body = [] \<or> (hd body \<noteq> 45 \<and> hd body \<noteq> 43)))"
  shows "long_from_string m b =
     (case int_digits body of
        None \<Rightarrow> Inl ValueError
      | Some ds \<Rightarrow>
          if 640 < length ds \<and> 0 < m \<and> m < length ds then Inl ValueError
          else Inr ((if sg = [45] then - 1 else 1) * int (foldl (\<lambda>a d. a * 10 + d) 0 ds)))"
proof -
  from assms(2) consider "sg = [45]" | "sg = [43]" | "sg = []" "body = []"
    | c r where "sg = []" "body = c # r" "c \<noteq> 45" "c \<noteq> 43"
    by (cases body) auto
  then show ?thesis
  proof cases
    case 1
    with assms(1) show ?thesis
      by (simp add: long_from_string_def)
  next
    case 2
    with assms(1) show ?thesis
      by (simp add: long_from_string_def)
  next
    case 3
    with assms(1) show ?thesis
      by (simp add: long_from_string_def)
  next
    case 4
    with assms(1) show ?thesis
      by (simp add: long_from_string_def)
  qed
qed

lemma strip_sign_split:
  "\<exists>sg body. strip b = sg @ body \<and>
     (sg = [45] \<or> sg = [43] \<or> (sg = [] \<and> (body = [] \<or> (hd body \<noteq> 45 \<and> hd body \<noteq> 43))))"
proof (cases "strip b")
  case Nil
  then show ?thesis by simp
next
  case (Cons c r)
  show ?thesis
  proof (cases "c = 45 \<or> c = 43")
    case True
    with Cons have "strip b = [c] @ r" by simp
    with True show ?thesis by blast
  next
    case False
    with Cons have "strip b = [] @ (c # r)" "hd (c # r) \<noteq> 45 \<and> hd (c # r) \<noteq> 43" by simp_all
    then show ?thesis by blast
  qed
qed


lemma long_from_string_spec:
  assumes cls: "\<forall>c \<in> set b. spec_space it c = is_space c \<and>
                  spec_digit it c = (if is_digit c then Some (digit_value c) else None)"
  shows "long_from_string (max_str_digits it) b = Inr k \<longleftrightarrow> spec_denotes it b k"
proof
  assume run: "long_from_string (max_str_digits it) b = Inr k"
  obtain lead trail where d: "b = lead @ strip b @ trail"
    and sp: "\<forall>c \<in> set lead. is_space c" "\<forall>c \<in> set trail. is_space c"
    using strip_decomp [of b] by blast
  obtain sg body where t: "strip b = sg @ body"
    and sg: "sg = [45] \<or> sg = [43] \<or> (sg = [] \<and> (body = [] \<or> (hd body \<noteq> 45 \<and> hd body \<noteq> 43)))"
    using strip_sign_split [of b] by blast
  note parts = long_from_string_parts [OF t sg, of "max_str_digits it"]
  from run parts obtain ds where ds: "int_digits body = Some ds"
    by (cases "int_digits body") simp_all
  from run parts ds
  have lim: "\<not> (640 < length ds \<and> 0 < max_str_digits it \<and> max_str_digits it < length ds)"
    by (auto split: if_splits)
  from run parts ds lim
  have k: "k = (if sg = [45] then - 1 else 1) * int (foldl (\<lambda>a d. a * 10 + d) 0 ds)"
    by (simp split: if_splits)
  from d t have b: "b = lead @ sg @ body @ trail"
    by simp
  then have sub: "set body \<subseteq> set b" "set lead \<subseteq> set b" "set trail \<subseteq> set b"
    by auto
  from cls sub(1) have "\<forall>c \<in> set body. spec_digit it c = (if is_digit c then Some (digit_value c) else None)"
    by blast
  from spec_digits_int_digits [OF ds this] have sd: "spec_digits it body ds" .
  from k have k': "k = (if sg = [45] then - int (spec_value ds) else int (spec_value ds))"
    by (simp add: foldl_spec_value)
  from sp cls sub have sp': "\<forall>c \<in> set lead. spec_space it c" "\<forall>c \<in> set trail. spec_space it c"
    by blast+
  from sg have sg': "sg = [] \<or> sg = [43] \<or> sg = [45]"
    by blast
  show "spec_denotes it b k"
    unfolding spec_denotes_def
    by (intro exI [of _ lead] exI [of _ sg] exI [of _ body] exI [of _ trail] exI [of _ ds] conjI)
       (fact b sp' sg' sd lim k')+
next
  assume "spec_denotes it b k"
  then obtain lead sg body trail ds where d: "b = lead @ sg @ body @ trail"
    and sp: "\<forall>c \<in> set lead. spec_space it c" "\<forall>c \<in> set trail. spec_space it c"
    and sg: "sg = [] \<or> sg = [43] \<or> sg = [45]"
    and sd: "spec_digits it body ds"
    and lim: "\<not> (640 < length ds \<and> 0 < max_str_digits it \<and> max_str_digits it < length ds)"
    and k: "k = (if sg = [45] then - int (spec_value ds) else int (spec_value ds))"
    unfolding spec_denotes_def by blast
  from d have sub: "set body \<subseteq> set b" "set lead \<subseteq> set b" "set trail \<subseteq> set b"
    by auto
  from spec_digits_ends [OF sd] have e: "body \<noteq> []" "spec_digit it (hd body) \<noteq> None"
    "spec_digit it (last body) \<noteq> None"
    by simp_all
  from e(1) sub(1) have hb: "hd body \<in> set b" "last body \<in> set b"
    by (auto simp: subset_iff)
  from cls hb(1) e(2) have dg1: "is_digit (hd body)"
    by (auto split: if_splits)
  from cls hb(2) e(3) have dg2: "is_digit (last body)"
    by (auto split: if_splits)
  from cls sub(1) have "\<forall>c \<in> set body. spec_digit it c = (if is_digit c then Some (digit_value c) else None)"
    by blast
  from int_digits_spec_digits [OF sd this] have ds: "int_digits body = Some ds" .
  let ?mid = "sg @ body"
  from e(1) have m1: "?mid \<noteq> []" by simp
  from sg dg1 e(1) have m2: "\<not> is_space (hd ?mid)"
    by (auto simp: is_space_def is_digit_def hd_append)
  from dg2 e(1) have m3: "\<not> is_space (last ?mid)"
    by (auto simp: is_space_def is_digit_def)
  from sp cls sub have sp': "\<forall>c \<in> set lead. is_space c" "\<forall>c \<in> set trail. is_space c"
    by blast+
  from strip_sandwich [OF sp' m1 m2 m3] d have t: "strip b = sg @ body"
    by simp
  from dg1 have nb: "hd body \<noteq> 45 \<and> hd body \<noteq> 43"
    by (auto simp: is_digit_def)
  with sg have sg': "sg = [45] \<or> sg = [43] \<or> (sg = [] \<and> (body = [] \<or> (hd body \<noteq> 45 \<and> hd body \<noteq> 43)))"
    by blast
  from long_from_string_parts [OF t sg', of "max_str_digits it"] ds lim k
  show "long_from_string (max_str_digits it) b = Inr k"
    by (simp add: foldl_spec_value)
qed

lemma spec_digits_map:
  assumes "spec_digits it body ds"
    and "\<forall>c \<in> set body. spec_digit it' (g c) = spec_digit it c \<and> (c = 95 \<longrightarrow> g c = 95)"
  shows "spec_digits it' (map g body) ds"
  using assms
proof (induction rule: spec_digits.induct)
  case (one c d)
  then show ?case by (simp add: spec_digits.one)
next
  case (more c d body ds)
  then show ?case by (simp add: spec_digits.more)
next
  case (underscore c d body ds)
  then show ?case by (simp add: spec_digits.underscore)
qed

lemma spec_digits_unmap:
  assumes "spec_digits it' b ds" and "b = map g body"
    and "\<forall>c \<in> set body. spec_digit it' (g c) = spec_digit it c \<and> (g c = 95 \<longrightarrow> c = 95)"
  shows "spec_digits it body ds"
  using assms
proof (induction arbitrary: body rule: spec_digits.induct)
  case (one c d)
  then obtain c0 where "body = [c0]" "c = g c0" by auto
  with one show ?case by (simp add: spec_digits.one)
next
  case (more c d b ds)
  from more.prems(1) obtain c0 r where r: "body = c0 # r" "c = g c0" "b = map g r"
    by auto
  with more.prems(2) have "spec_digits it r ds"
    by (intro more.IH) simp_all
  with r more.hyps(1) more.prems(2) show ?case
    by (simp add: spec_digits.more)
next
  case (underscore c d b ds)
  from underscore.prems(1) obtain c0 u r where r: "body = c0 # u # r" "c = g c0" "g u = 95" "b = map g r"
    by (auto simp: Cons_eq_map_conv)
  with underscore.prems(2) have u: "u = 95" by simp
  from r underscore.prems(2) have "spec_digits it r ds"
    by (intro underscore.IH) simp_all
  with r u underscore.hyps(1) underscore.prems(2) show ?case
    by (simp add: spec_digits.underscore)
qed

lemma spec_denotes_map:
  assumes cls: "\<forall>c \<in> set s. spec_space it' (g c) = spec_space it c \<and>
                   spec_digit it' (g c) = spec_digit it c \<and>
                   (g c = 43 \<longleftrightarrow> c = 43) \<and> (g c = 45 \<longleftrightarrow> c = 45) \<and> (g c = 95 \<longleftrightarrow> c = 95)"
    and mx: "max_str_digits it' = max_str_digits it"
  shows "spec_denotes it' (map g s) k \<longleftrightarrow> spec_denotes it s k"
proof
  assume "spec_denotes it s k"
  then obtain lead sg body trail ds where d: "s = lead @ sg @ body @ trail"
    and sp: "\<forall>c \<in> set lead. spec_space it c" "\<forall>c \<in> set trail. spec_space it c"
    and sg: "sg = [] \<or> sg = [43] \<or> sg = [45]"
    and sd: "spec_digits it body ds"
    and lim: "\<not> (640 < length ds \<and> 0 < max_str_digits it \<and> max_str_digits it < length ds)"
    and k: "k = (if sg = [45] then - int (spec_value ds) else int (spec_value ds))"
    unfolding spec_denotes_def by blast
  from d have sub: "set body \<subseteq> set s" "set lead \<subseteq> set s" "set trail \<subseteq> set s" "set sg \<subseteq> set s"
    by auto
  from d have 1: "map g s = map g lead @ map g sg @ map g body @ map g trail"
    by simp
  from sp cls sub have 2: "\<forall>c \<in> set (map g lead). spec_space it' c"
    "\<forall>c \<in> set (map g trail). spec_space it' c"
    by auto
  from sg cls sub(4) have 3: "map g sg = sg"
    by auto
  from cls sub(1) have "\<forall>c \<in> set body. spec_digit it' (g c) = spec_digit it c \<and> (c = 95 \<longrightarrow> g c = 95)"
    by blast
  from spec_digits_map [OF sd this] have 4: "spec_digits it' (map g body) ds" .
  from lim mx have 5: "\<not> (640 < length ds \<and> 0 < max_str_digits it' \<and> max_str_digits it' < length ds)"
    by simp
  from 1 3 have 1: "map g s = map g lead @ sg @ map g body @ map g trail"
    by simp
  show "spec_denotes it' (map g s) k"
    unfolding spec_denotes_def
    by (intro exI [of _ "map g lead"] exI [of _ sg] exI [of _ "map g body"]
          exI [of _ "map g trail"] exI [of _ ds] conjI)
       (fact 1 2 sg 4 5 k)+
next
  assume "spec_denotes it' (map g s) k"
  then obtain lead' sg' body' trail' ds where d: "map g s = lead' @ sg' @ body' @ trail'"
    and sp: "\<forall>c \<in> set lead'. spec_space it' c" "\<forall>c \<in> set trail'. spec_space it' c"
    and sg: "sg' = [] \<or> sg' = [43] \<or> sg' = [45]"
    and sd: "spec_digits it' body' ds"
    and lim: "\<not> (640 < length ds \<and> 0 < max_str_digits it' \<and> max_str_digits it' < length ds)"
    and k: "k = (if sg' = [45] then - int (spec_value ds) else int (spec_value ds))"
    unfolding spec_denotes_def by blast
  from d obtain lead r1 where a: "s = lead @ r1" "lead' = map g lead" "sg' @ body' @ trail' = map g r1"
    by (auto simp: map_eq_append_conv)
  from a(3) obtain sg r2 where b: "r1 = sg @ r2" "sg' = map g sg" "body' @ trail' = map g r2"
    by (auto simp: append_eq_map_conv)
  from b(3) obtain body trail where c: "r2 = body @ trail" "body' = map g body" "trail' = map g trail"
    by (auto simp: append_eq_map_conv)
  from a b c have 1: "s = lead @ sg @ body @ trail"
    by simp
  then have sub: "set body \<subseteq> set s" "set lead \<subseteq> set s" "set trail \<subseteq> set s" "set sg \<subseteq> set s"
    by auto
  from sp a(2) c(3) cls sub have 2: "\<forall>c \<in> set lead. spec_space it c" "\<forall>c \<in> set trail. spec_space it c"
    by auto
  from sg b(2) cls sub(4) have 3: "sg = sg'"
    by auto
  from cls sub(1) have "\<forall>c \<in> set body. spec_digit it' (g c) = spec_digit it c \<and> (g c = 95 \<longrightarrow> c = 95)"
    by blast
  from spec_digits_unmap [OF sd c(2) this] have 4: "spec_digits it body ds" .
  from lim mx have 5: "\<not> (640 < length ds \<and> 0 < max_str_digits it \<and> max_str_digits it < length ds)"
    by simp
  from sg 3 have 6: "sg = [] \<or> sg = [43] \<or> sg = [45]"
    by simp
  from k 3 have 7: "k = (if sg = [45] then - int (spec_value ds) else int (spec_value ds))"
    by simp
  show "spec_denotes it s k"
    unfolding spec_denotes_def
    by (intro exI [of _ lead] exI [of _ sg] exI [of _ body] exI [of _ trail] exI [of _ ds] conjI)
       (fact 1 2 6 4 5 7)+
qed

lemma spec_digits_classified:
  "spec_digits it body ds \<Longrightarrow> \<forall>c \<in> set body. spec_digit it c \<noteq> None \<or> c = 95"
  by (induction rule: spec_digits.induct) auto

lemma spec_denotes_classified:
  assumes "spec_denotes it s k" and "c \<in> set s"
  shows "spec_space it c \<or> spec_digit it c \<noteq> None \<or> c = 43 \<or> c = 45 \<or> c = 95"
proof -
  from assms(1) obtain lead sg body trail ds where d: "s = lead @ sg @ body @ trail"
    and sp: "\<forall>c \<in> set lead. spec_space it c" "\<forall>c \<in> set trail. spec_space it c"
    and sg: "sg = [] \<or> sg = [43] \<or> sg = [45]"
    and sd: "spec_digits it body ds"
    unfolding spec_denotes_def by blast
  from d assms(2) consider "c \<in> set lead" | "c \<in> set sg" | "c \<in> set body" | "c \<in> set trail"
    by auto
  then show ?thesis
  proof cases
    case 1 with sp show ?thesis by blast
  next
    case 2 with sg show ?thesis by auto
  next
    case 3 with spec_digits_classified [OF sd] show ?thesis by blast
  next
    case 4 with sp show ?thesis by blast
  qed
qed

lemma transform_all_good:
  assumes "\<forall>c \<in> set s. c < 127 \<or> Py_UNICODE_ISSPACE it c \<or> Py_UNICODE_TODECIMAL it c \<noteq> None"
  shows "transform_decimal_and_space_to_ascii it s =
     map (\<lambda>c. if c < 127 then c else if Py_UNICODE_ISSPACE it c then 32
               else 48 + the (Py_UNICODE_TODECIMAL it c)) s"
  using assms by (induction s) auto

lemma transform_some_bad:
  assumes "\<exists>c \<in> set s. \<not> (c < 127 \<or> Py_UNICODE_ISSPACE it c \<or> Py_UNICODE_TODECIMAL it c \<noteq> None)"
  shows "63 \<in> set (transform_decimal_and_space_to_ascii it s)"
  using assms by (induction s) (auto split: option.splits)

lemma ascii_classes:
  "spec_space (it\<lparr>unicode_isspace := \<lambda>c. False, unicode_todecimal := \<lambda>c. None\<rparr>) c = is_space c"
  "spec_digit (it\<lparr>unicode_isspace := \<lambda>c. False, unicode_todecimal := \<lambda>c. None\<rparr>) c =
     (if is_digit c then Some (digit_value c) else None)"
  by (auto simp: spec_space_def spec_digit_def is_space_def is_digit_def digit_value_def)

lemma low_classes:
  assumes "c < 128"
  shows "spec_space it c = is_space c"
    and "spec_digit it c = (if is_digit c then Some (digit_value c) else None)"
  using assms
  by (auto simp: spec_space_def spec_digit_def is_space_def is_digit_def digit_value_def)

lemma py_int_spec:
  assumes ok: "unicode_ok it"
  shows "py_int it s = Inr k \<longleftrightarrow> spec_denotes it s k"
proof (cases "\<forall>ch \<in> set s. ch < 128")
  case True
  then have "to_ascii it s = s"
    by (simp add: to_ascii_def)
  moreover from True
  have "\<forall>c \<in> set s. spec_space it c = is_space c \<and>
          spec_digit it c = (if is_digit c then Some (digit_value c) else None)"
    by (simp add: low_classes)
  ultimately show ?thesis
    by (simp add: py_int_def long_from_string_spec)
next
  case False
  let ?it0 = "it\<lparr>unicode_isspace := \<lambda>c. False, unicode_todecimal := \<lambda>c. None\<rparr>"
  let ?b = "transform_decimal_and_space_to_ascii it s"
  from False have ta: "to_ascii it s = ?b"
    unfolding to_ascii_def by (rule if_not_P)
  have "\<forall>c \<in> set ?b. spec_space ?it0 c = is_space c \<and>
          spec_digit ?it0 c = (if is_digit c then Some (digit_value c) else None)"
    by (simp add: ascii_classes)
  from long_from_string_spec [OF this, of k]
  have run: "py_int it s = Inr k \<longleftrightarrow> spec_denotes ?it0 ?b k"
    by (simp add: py_int_def ta)
  show ?thesis
  proof (cases "\<forall>c \<in> set s. c < 127 \<or> Py_UNICODE_ISSPACE it c \<or> Py_UNICODE_TODECIMAL it c \<noteq> None")
    case good: True
    let ?g = "\<lambda>c. if c < 127 then c else if Py_UNICODE_ISSPACE it c then 32
               else 48 + the (Py_UNICODE_TODECIMAL it c)"
    have b: "?b = map ?g s"
      by (rule transform_all_good [OF good])
    have cls: "spec_space ?it0 (?g c) = spec_space it c \<and>
               spec_digit ?it0 (?g c) = spec_digit it c \<and>
               (?g c = 43 \<longleftrightarrow> c = 43) \<and> (?g c = 45 \<longleftrightarrow> c = 45) \<and> (?g c = 95 \<longleftrightarrow> c = 95)"
      if c: "c \<in> set s" for c
    proof -
      from good c consider "c < 127"
        | "127 \<le> c" "Py_UNICODE_ISSPACE it c"
        | "127 \<le> c" "\<not> Py_UNICODE_ISSPACE it c" "Py_UNICODE_TODECIMAL it c \<noteq> None"
        by fastforce
      then show ?thesis
      proof cases
        case 1
        then show ?thesis
          by (simp add: ascii_classes low_classes)
      next
        case 2
        then have c1: "128 \<le> c" "unicode_isspace it c"
          by (auto simp: Py_UNICODE_ISSPACE_def split: if_splits)
        with ok have "unicode_todecimal it c = None"
          by (cases "unicode_todecimal it c") (auto simp: unicode_ok_def)
        with 2 c1 show ?thesis
          by (simp add: ascii_classes spec_space_def spec_digit_def is_space_def is_digit_def)
      next
        case 3
        then obtain d where d: "Py_UNICODE_TODECIMAL it c = Some d"
          by blast
        with 3 have c1: "128 \<le> c" "unicode_todecimal it c = Some d" "\<not> unicode_isspace it c"
          by (auto simp: Py_UNICODE_TODECIMAL_def Py_UNICODE_ISSPACE_def split: if_splits)
        with ok have "d < 10"
          by (auto simp: unicode_ok_def)
        with 3 d c1 show ?thesis
          by (simp add: ascii_classes spec_space_def spec_digit_def is_space_def is_digit_def
                digit_value_def)
      qed
    qed
    have "spec_denotes ?it0 (map ?g s) k \<longleftrightarrow> spec_denotes it s k"
      by (rule spec_denotes_map) (use cls in simp_all)
    with run b show ?thesis
      by simp
  next
    case bad: False
    then have "63 \<in> set ?b"
      by (intro transform_some_bad) blast
    from spec_denotes_classified [OF _ this, of ?it0 k]
    have 1: "\<not> spec_denotes ?it0 ?b k"
      by (auto simp: ascii_classes is_space_def is_digit_def)
    from bad obtain c where c: "c \<in> set s" "127 \<le> c" "\<not> Py_UNICODE_ISSPACE it c"
      "Py_UNICODE_TODECIMAL it c = None"
      by fastforce
    then have "\<not> spec_space it c" "spec_digit it c = None"
      by (auto simp: spec_space_def spec_digit_def Py_UNICODE_ISSPACE_def Py_UNICODE_TODECIMAL_def
               split: if_splits)
    with spec_denotes_classified [OF _ c(1), of it k] c(2)
    have 2: "\<not> spec_denotes it s k"
      by auto
    from run 1 2 show ?thesis
      by simp
  qed
qed

lemma py_int_raises:
  "py_int it s = Inl e \<Longrightarrow> e = ValueError"
  by (auto simp: py_int_def long_from_string_def Let_def split: prod.splits option.splits if_splits)

section \<open>Driver: the selection loop\<close>

declare main_select_loop.simps [simp del]

lemma main_select_loop_eof:
  "stdin w = [] \<Longrightarrow> main_select_loop it fs w = (Inl EOFError, emit select_prompt w)"
  by (subst main_select_loop.simps) (simp add: emit_def select_prompt_def)

lemma main_select_loop_accept:
  "stdin w = s # rest \<Longrightarrow> py_int it s = Inr k \<Longrightarrow> 1 \<le> k \<Longrightarrow> k \<le> int (length fs) \<Longrightarrow>
   main_select_loop it fs w =
     (Inr (fs ! nat (k - 1)), w\<lparr>stdin := rest, events := events w @ [select_prompt]\<rparr>)"
  by (subst main_select_loop.simps) (simp add: emit_def select_prompt_def)

lemma main_select_loop_invalid_input:
  assumes "stdin w = s # rest" and "py_int it s = Inl e"
  shows "main_select_loop it fs w =
     main_select_loop it fs
       (w\<lparr>stdin := rest,
          events := events w @ [select_prompt, Log ERROR ''Invalid input. Please try again.'' []]\<rparr>)"
proof -
  from assms(2) have "e = ValueError"
    by (rule py_int_raises)
  with assms show ?thesis
    by (subst main_select_loop.simps) (simp add: emit_def logger_def select_prompt_def)
qed

lemma main_select_loop_invalid_selection:
  assumes "stdin w = s # rest" and "py_int it s = Inr k" and "\<not> (1 \<le> k \<and> k \<le> int (length fs))"
  shows "main_select_loop it fs w =
     main_select_loop it fs
       (w\<lparr>stdin := rest,
          events := events w @ [select_prompt, Log ERROR ''Invalid selection. Please try again.'' []]\<rparr>)"
  using assms
  by (subst main_select_loop.simps) (auto simp: emit_def logger_def select_prompt_def)

lemma main_select_loop_reject:
  assumes ok: "unicode_ok it" and w: "stdin w = s # rest"
    and rej: "spec_rejected it (length fs) s"
  shows "main_select_loop it fs w =
     main_select_loop it fs
       (w\<lparr>stdin := rest, events := events w @ [select_prompt, spec_report it s]\<rparr>)"
proof (cases "py_int it s")
  case (Inl e)
  have "\<not> spec_denotes it s k" for k
    using py_int_spec [OF ok, of s k] Inl by simp
  then have "spec_report it s = Log ERROR ''Invalid input. Please try again.'' []"
    by (simp add: spec_report_def)
  with main_select_loop_invalid_input [OF w Inl, of fs] show ?thesis
    by simp
next
  case (Inr k)
  then have d: "spec_denotes it s k"
    using py_int_spec [OF ok, of s k] by simp
  then have "spec_report it s = Log ERROR ''Invalid selection. Please try again.'' []"
    unfolding spec_report_def by (simp only: exI [of _ k] if_True)
  moreover from d rej have "\<not> (1 \<le> k \<and> k \<le> int (length fs))"
    unfolding spec_rejected_def by blast
  ultimately show ?thesis
    using main_select_loop_invalid_selection [OF w Inr, of fs] by simp
qed

lemma main_select_loop_rejects:
  "unicode_ok it \<Longrightarrow> stdin w = bad @ rest \<Longrightarrow>
   \<forall>s \<in> set bad. spec_rejected it (length fs) s \<Longrightarrow>
   main_select_loop it fs w =
     main_select_loop it fs
       (w\<lparr>stdin := rest,
          events := events w @ concat (map (\<lambda>s. [select_prompt, spec_report it s]) bad)\<rparr>)"
proof (induction bad arbitrary: w)
  case Nil
  then have "w\<lparr>stdin := rest, events := events w\<rparr> = w" by simp
  then show ?case by simp
next
  case (Cons s bad)
  let ?w1 = "w\<lparr>stdin := bad @ rest, events := events w @ [select_prompt, spec_report it s]\<rparr>"
  from Cons.prems have "main_select_loop it fs w = main_select_loop it fs ?w1"
    using main_select_loop_reject [of it w s "bad @ rest" fs] by simp
  also have "\<dots> = main_select_loop it fs
       (?w1\<lparr>stdin := rest,
          events := events ?w1 @ concat (map (\<lambda>s. [select_prompt, spec_report it s]) bad)\<rparr>)"
    using Cons.prems by (intro Cons.IH) simp_all
  finally show ?case by simp
qed

text \<open>\<^verbatim>\<open>int\<close> on the inputs of the specification's example, whatever the interpreter.\<close>

lemma py_int_examples:
  "py_int it [0x32] = Inr 2" "py_int it [0x35] = Inr 5"
  "py_int it [0x61, 0x62, 0x63] = Inl ValueError"
  by (simp_all add: py_int_def to_ascii_def long_from_string_def strip_def is_space_def
        is_digit_def digit_value_def)

lemma unicode_ok_excerpt:
  "unicode_ok unicode_excerpt"
  by (auto simp: unicode_ok_def unicode_excerpt_def split: if_splits)

text \<open>
  C8. With exactly one candidate the selector takes it, prompting for nothing. Otherwise,
  on console input that begins with any number of rejected lines followed by a line that
  is an integer \<open>k\<close> from 1 to the number of candidates, it prompts once per line, reports
  each rejected line with one error, and selects the candidate at the 1-based index \<open>k\<close>,
  leaving the rest of the input unread. A line is rejected when it is no such integer, be
  it no integer at all or one out of range; which lines are integers is said by
  \<open>spec_denotes\<close>, not by the program. A rejected line never ends the run: if the input
  holds rejected lines only, the selector fails at the end of the input, with the
  \<^verbatim>\<open>EOFError\<close> of \<^verbatim>\<open>input\<close>, after having reported every line. With three candidates, whatever
  the interpreter, \<^verbatim>\<open>"abc"\<close> is reported as invalid input and \<^verbatim>\<open>"5"\<close> as an invalid selection,
  each followed by a new prompt, and \<^verbatim>\<open>"2"\<close> selects the second file.
\<close>

theorem file_selector_policy:
  \<open>(length json_files = 1 \<longrightarrow>
      main_select_file it json_files w =
        (Inr (json_files ! 0),
         w\<lparr>events := events w @
            [Log DEBUG ''Automatically selected the only JSON file: "{selected_file}"''
               [AStr (json_files ! 0)],
             Log DEBUG ''{selected_file=}'' [AStr (json_files ! 0)]]\<rparr>)) \<and>
   (unicode_ok it \<and> length json_files \<noteq> 1 \<and> stdin w = bad @ good # rest \<and>
    (\<forall>s \<in> set bad. spec_rejected it (length json_files) s) \<and>
    spec_denotes it good k \<and> 1 \<le> k \<and> k \<le> int (length json_files) \<longrightarrow>
      main_select_file it json_files w =
        (Inr (json_files ! nat (k - 1)),
         w\<lparr>stdin := rest,
           events := events w @ concat (map (\<lambda>s. [select_prompt, spec_report it s]) bad) @
             [select_prompt, Log DEBUG ''{selected_file=}'' [AStr (json_files ! nat (k - 1))]]\<rparr>)) \<and>
   (unicode_ok it \<and> length json_files \<noteq> 1 \<and> stdin w = bad \<and>
    (\<forall>s \<in> set bad. spec_rejected it (length json_files) s) \<longrightarrow>
      main_select_file it json_files w =
        (Inl EOFError,
         w\<lparr>stdin := [],
           events := events w @ concat (map (\<lambda>s. [select_prompt, spec_report it s]) bad) @
             [select_prompt]\<rparr>)) \<and>
   main_select_file it [''a.json'', ''b.json'', ''c.json'']
     \<lparr>stdin = [[0x61, 0x62, 0x63], [0x35], [0x32]], dir_files = [], events = []\<rparr> =
     (Inr ''b.json'',
      \<lparr>stdin = [], dir_files = [],
       events =
         [Prompt ''Please select a JSON file by number: '',
          Log ERROR ''Invalid input. Please try again.'' [],
          Prompt ''Please select a JSON file by number: '',
          Log ERROR ''Invalid selection. Please try again.'' [],
          Prompt ''Please select a JSON file by number: '',
          Log DEBUG ''{selected_file=}'' [AStr ''b.json'']]\<rparr>)\<close>
proof (intro conjI impI)
  assume "length json_files = 1"
  then show \<open>main_select_file it json_files w =
        (Inr (json_files ! 0),
         w\<lparr>events := events w @
            [Log DEBUG ''Automatically selected the only JSON file: "{selected_file}"''
               [AStr (json_files ! 0)],
             Log DEBUG ''{selected_file=}'' [AStr (json_files ! 0)]]\<rparr>)\<close>
    by (simp add: main_select_file_def logger_def emit_def)
next
  assume a: "unicode_ok it \<and> length json_files \<noteq> 1 \<and> stdin w = bad @ good # rest \<and>
    (\<forall>s \<in> set bad. spec_rejected it (length json_files) s) \<and>
    spec_denotes it good k \<and> 1 \<le> k \<and> k \<le> int (length json_files)"
  then have good: "py_int it good = Inr k"
    by (simp add: py_int_spec)
  let ?w1 = "w\<lparr>stdin := good # rest,
          events := events w @ concat (map (\<lambda>s. [select_prompt, spec_report it s]) bad)\<rparr>"
  have "main_select_loop it json_files w = main_select_loop it json_files ?w1"
    using a main_select_loop_rejects [of it w bad "good # rest" json_files] by simp
  also have "\<dots> = (Inr (json_files ! nat (k - 1)),
                    ?w1\<lparr>stdin := rest, events := events ?w1 @ [select_prompt]\<rparr>)"
    using a good main_select_loop_accept [of ?w1 good rest it k json_files] by simp
  finally show "main_select_file it json_files w =
        (Inr (json_files ! nat (k - 1)),
         w\<lparr>stdin := rest,
           events := events w @ concat (map (\<lambda>s. [select_prompt, spec_report it s]) bad) @
             [select_prompt, Log DEBUG ''{selected_file=}'' [AStr (json_files ! nat (k - 1))]]\<rparr>)"
    using a by (simp add: main_select_file_def logger_def emit_def)
next
  assume a: "unicode_ok it \<and> length json_files \<noteq> 1 \<and> stdin w = bad \<and>
    (\<forall>s \<in> set bad. spec_rejected it (length json_files) s)"
  let ?w1 = "w\<lparr>stdin := [],
          events := events w @ concat (map (\<lambda>s. [select_prompt, spec_report it s]) bad)\<rparr>"
  have "main_select_loop it json_files w = main_select_loop it json_files ?w1"
    using a main_select_loop_rejects [of it w bad "[]" json_files] by simp
  also have "\<dots> = (Inl EOFError, emit select_prompt ?w1)"
    using main_select_loop_eof [of ?w1 it json_files] by simp
  finally show "main_select_file it json_files w =
        (Inl EOFError,
         w\<lparr>stdin := [],
           events := events w @ concat (map (\<lambda>s. [select_prompt, spec_report it s]) bad) @
             [select_prompt]\<rparr>)"
    using a by (simp add: main_select_file_def emit_def)
next
  let ?fs = "[''a.json'', ''b.json'', ''c.json'']"
  let ?w0 = "\<lparr>stdin = [[0x61, 0x62, 0x63], [0x35], [0x32]], dir_files = [], events = []\<rparr>"
  let ?w1 = "?w0\<lparr>stdin := [[0x35], [0x32]], events := events ?w0 @ [select_prompt, Log ERROR ''Invalid input. Please try again.'' []]\<rparr>"
  let ?w2 = "?w1\<lparr>stdin := [[0x32]], events := events ?w1 @ [select_prompt, Log ERROR ''Invalid selection. Please try again.'' []]\<rparr>"
  have "main_select_loop it ?fs ?w0 = main_select_loop it ?fs ?w1"
    by (rule main_select_loop_invalid_input [where s = "[0x61, 0x62, 0x63]" and e = ValueError])
       (simp_all add: py_int_examples)
  also have "\<dots> = main_select_loop it ?fs ?w2"
    by (rule main_select_loop_invalid_selection [where s = "[0x35]" and k = 5])
       (simp_all add: py_int_examples)
  also have "\<dots> = (Inr (?fs ! nat (2 - 1)), ?w2\<lparr>stdin := [], events := events ?w2 @ [select_prompt]\<rparr>)"
    by (rule main_select_loop_accept [where s = "[0x32]"]) (simp_all add: py_int_examples)
  finally show "main_select_file it ?fs ?w0 =
     (Inr ''b.json'',
      \<lparr>stdin = [], dir_files = [],
       events =
         [Prompt ''Please select a JSON file by number: '',
          Log ERROR ''Invalid input. Please try again.'' [],
          Prompt ''Please select a JSON file by number: '',
          Log ERROR ''Invalid selection. Please try again.'' [],
          Prompt ''Please select a JSON file by number: '',
          Log DEBUG ''{selected_file=}'' [AStr ''b.json'']]\<rparr>)"
    by (simp add: main_select_file_def logger_def emit_def select_prompt_def)
qed

text \<open>
  C8 with three candidates and the interpreter of the examples. The lines \<^verbatim>\<open>"abc"\<close>, \<^verbatim>\<open>"5"\<close>,
  a line of the fullwidth digits nine and nine, and a line of a lone underscore are
  rejected; the line made of a no-break space (U+00A0) and the fullwidth digit two (U+FF12)
  is the integer 2 and selects the second file, leaving \<^verbatim>\<open>"1"\<close> unread. With the rejected lines
  alone the selector ends with \<^verbatim>\<open>EOFError\<close>, and a single candidate is taken without a
  prompt.
\<close>

theorem file_selector_policy_witness:
  "unicode_ok unicode_excerpt \<and>
   main_select_file unicode_excerpt [''a.json'', ''b.json'', ''c.json'']
     \<lparr>stdin = [[0x61, 0x62, 0x63], [0x35], [0xFF19, 0xFF19], [0x5F], [0xA0, 0xFF12], [0x31]], dir_files = [], events = []\<rparr> =
     (Inr ''b.json'',
      \<lparr>stdin = [[0x31]], dir_files = [],
       events =
         [Prompt ''Please select a JSON file by number: '',
          Log ERROR ''Invalid input. Please try again.'' [],
          Prompt ''Please select a JSON file by number: '',
          Log ERROR ''Invalid selection. Please try again.'' [],
          Prompt ''Please select a JSON file by number: '',
          Log ERROR ''Invalid selection. Please try again.'' [],
          Prompt ''Please select a JSON file by number: '',
          Log ERROR ''Invalid input. Please try again.'' [],
          Prompt ''Please select a JSON file by number: '',
          Log DEBUG ''{selected_file=}'' [AStr ''b.json'']]\<rparr>) \<and>
   fst (main_select_file unicode_excerpt [''a.json'', ''b.json'', ''c.json'']
     \<lparr>stdin = [[0x61, 0x62, 0x63], [0x35], [0xFF19, 0xFF19], [0x5F]], dir_files = [], events = []\<rparr>) = Inl EOFError \<and>
   fst (main_select_file unicode_excerpt [''only.json'']
     \<lparr>stdin = [], dir_files = [], events = []\<rparr>) = Inr ''only.json''"
proof -
  let ?it = unicode_excerpt
  let ?fs = "[''a.json'', ''b.json'', ''c.json'']"
  let ?bad = "[[0x61, 0x62, 0x63], [0x35], [0xFF19, 0xFF19], [0x5F]]"
  note ok = unicode_ok_excerpt
  have i1: "py_int ?it [0x61, 0x62, 0x63] = Inl ValueError"
    and i2: "py_int ?it [0x35] = Inr 5"
    by (simp_all add: py_int_examples)
  have i3: "py_int ?it [0xFF19, 0xFF19] = Inr 99"
    by (simp add: py_int_def to_ascii_def long_from_string_def strip_def is_space_def
        is_digit_def digit_value_def unicode_excerpt_def Py_UNICODE_ISSPACE_def
        Py_UNICODE_TODECIMAL_def)
  have i4: "py_int ?it [0x5F] = Inl ValueError"
    by (simp add: py_int_def to_ascii_def long_from_string_def strip_def is_space_def
        is_digit_def digit_value_def)
  have i5: "py_int ?it [0xA0, 0xFF12] = Inr 2"
    by (simp add: py_int_def to_ascii_def long_from_string_def strip_def is_space_def
        is_digit_def digit_value_def unicode_excerpt_def Py_UNICODE_ISSPACE_def
        Py_UNICODE_TODECIMAL_def)
  have d: "spec_denotes ?it [0x61, 0x62, 0x63] k = False"
    "spec_denotes ?it [0x35] k = (k = 5)"
    "spec_denotes ?it [0xFF19, 0xFF19] k = (k = 99)"
    "spec_denotes ?it [0x5F] k = False"
    "spec_denotes ?it [0xA0, 0xFF12] k = (k = 2)" for k
    using py_int_spec [OF ok, of "[0x61, 0x62, 0x63]" k] py_int_spec [OF ok, of "[0x35]" k]
      py_int_spec [OF ok, of "[0xFF19, 0xFF19]" k] py_int_spec [OF ok, of "[0x5F]" k]
      py_int_spec [OF ok, of "[0xA0, 0xFF12]" k]
    by (auto simp: i1 i2 i3 i4 i5)
  have rej: "\<forall>s \<in> set ?bad. spec_rejected ?it (length ?fs) s"
    by (simp add: spec_rejected_def d)
  have rep: "map (spec_report ?it) ?bad =
      [Log ERROR ''Invalid input. Please try again.'' [],
       Log ERROR ''Invalid selection. Please try again.'' [],
       Log ERROR ''Invalid selection. Please try again.'' [],
       Log ERROR ''Invalid input. Please try again.'' []]"
    by (simp add: spec_report_def d)
  have t1: "main_select_file ?it ?fs \<lparr>stdin = [[0x61, 0x62, 0x63], [0x35], [0xFF19, 0xFF19], [0x5F], [0xA0, 0xFF12], [0x31]], dir_files = [], events = []\<rparr> =
     (Inr ''b.json'',
      \<lparr>stdin = [[0x31]], dir_files = [],
       events =
         [Prompt ''Please select a JSON file by number: '',
          Log ERROR ''Invalid input. Please try again.'' [],
          Prompt ''Please select a JSON file by number: '',
          Log ERROR ''Invalid selection. Please try again.'' [],
          Prompt ''Please select a JSON file by number: '',
          Log ERROR ''Invalid selection. Please try again.'' [],
          Prompt ''Please select a JSON file by number: '',
          Log ERROR ''Invalid input. Please try again.'' [],
          Prompt ''Please select a JSON file by number: '',
          Log DEBUG ''{selected_file=}'' [AStr ''b.json'']]\<rparr>)"
    using file_selector_policy
            [of ?fs ?it "\<lparr>stdin = [[0x61, 0x62, 0x63], [0x35], [0xFF19, 0xFF19], [0x5F], [0xA0, 0xFF12], [0x31]], dir_files = [], events = []\<rparr>"
                ?bad "[0xA0, 0xFF12]" "[[0x31]]" 2] ok rej rep
    by (simp add: d select_prompt_def)
  have t2: "fst (main_select_file ?it ?fs \<lparr>stdin = [[0x61, 0x62, 0x63], [0x35], [0xFF19, 0xFF19], [0x5F]], dir_files = [], events = []\<rparr>) = Inl EOFError"
    using file_selector_policy
            [of ?fs ?it "\<lparr>stdin = [[0x61, 0x62, 0x63], [0x35], [0xFF19, 0xFF19], [0x5F]], dir_files = [], events = []\<rparr>" ?bad] ok rej
    by simp
  have t3: "fst (main_select_file ?it [''only.json''] \<lparr>stdin = [], dir_files = [], events = []\<rparr>) =
              Inr ''only.json''"
    using file_selector_policy
            [of "[''only.json'']" ?it "\<lparr>stdin = [], dir_files = [], events = []\<rparr>"]
    by simp
  from ok t1 t2 t3 show ?thesis by blast
qed

section \<open>Driver: clipboard policy\<close>

text \<open>
  C4. When the search returns a Match Set, the Driver calls the clipboard if and only if
  the Match Set has exactly one element, and then with exactly that element; when the
  Match Set is empty or has two or more elements it logs a warning and makes no clipboard
  call. When the search raises, nothing is logged or copied.
\<close>

theorem clipboard_written_iff_single_match:
  "(find_chunk_data_in_json data None = Inr chunk_datas \<longrightarrow>
      (\<exists>new. main_copy_chunk_data data w = (Inr (), w\<lparr>events := events w @ new\<rparr>) \<and>
             (clipboard_writes new \<noteq> [] \<longleftrightarrow> length chunk_datas = 1) \<and>
             (length chunk_datas = 1 \<longrightarrow> clipboard_writes new = [chunk_datas ! 0]) \<and>
             (length chunk_datas \<noteq> 1 \<longrightarrow> warnings new \<noteq> [] \<and> clipboard_writes new = []))) \<and>
   (find_chunk_data_in_json data None = Inl e \<longrightarrow> main_copy_chunk_data data w = (Inl e, w))"
proof (intro conjI impI)
  assume r: "find_chunk_data_in_json data None = Inr chunk_datas"
  define new where "new =
     Log DEBUG ''{chunk_datas=}'' [AValues chunk_datas] #
     (if chunk_datas = [] then [Log WARNING ''ReaFIR not found'' []] else []) @
     (if length chunk_datas = 1
      then [Copy (chunk_datas ! 0), Log INFO ''chunk_data copied to clipboard'' []]
      else if length chunk_datas = 0 then [Log WARNING ''No chunk_data found'' []]
      else [Log WARNING ''Multiple chunk_data entries found; not copying'' []])"
  have run: "main_copy_chunk_data data w = (Inr (), w\<lparr>events := events w @ new\<rparr>)"
    by (simp add: main_copy_chunk_data_def r new_def logger_def emit_def Let_def)
  have cw: "clipboard_writes new = (if length chunk_datas = 1 then [chunk_datas ! 0] else [])"
    by (simp add: new_def)
  have wn: "length chunk_datas \<noteq> 1 \<longrightarrow> warnings new \<noteq> []"
    by (simp add: new_def)
  from run cw wn
  show "\<exists>new. main_copy_chunk_data data w = (Inr (), w\<lparr>events := events w @ new\<rparr>) \<and>
             (clipboard_writes new \<noteq> [] \<longleftrightarrow> length chunk_datas = 1) \<and>
             (length chunk_datas = 1 \<longrightarrow> clipboard_writes new = [chunk_datas ! 0]) \<and>
             (length chunk_datas \<noteq> 1 \<longrightarrow> warnings new \<noteq> [] \<and> clipboard_writes new = [])"
    by (intro exI [of _ new]) simp
next
  assume "find_chunk_data_in_json data None = Inl e"
  then show "main_copy_chunk_data data w = (Inl e, w)"
    by (simp add: main_copy_chunk_data_def)
qed

text \<open>C4 at Match Sets of one, two and no elements, and at a search that raises.\<close>

theorem clipboard_written_iff_single_match_witness:
  "clipboard_writes (events (snd (main_copy_chunk_data
      (JArray [JObject [(''plugin_path'', JString ''reafir_standalone.dll''),
                        (''chunk_data'', JString ''X'')]])
      \<lparr>stdin = [], dir_files = [], events = []\<rparr>))) = [JString ''X''] \<and>
   clipboard_writes (events (snd (main_copy_chunk_data
      (JArray [JObject [(''plugin_path'', JString ''reafir_standalone.dll''),
                        (''chunk_data'', JString ''X'')],
               JObject [(''plugin_path'', JString ''reafir_standalone.dll''),
                        (''chunk_data'', JString ''Y'')]])
      \<lparr>stdin = [], dir_files = [], events = []\<rparr>))) = [] \<and>
   warnings (events (snd (main_copy_chunk_data
      (JArray [JObject [(''plugin_path'', JString ''reafir_standalone.dll''),
                        (''chunk_data'', JString ''X'')],
               JObject [(''plugin_path'', JString ''reafir_standalone.dll''),
                        (''chunk_data'', JString ''Y'')]])
      \<lparr>stdin = [], dir_files = [], events = []\<rparr>))) \<noteq> [] \<and>
   clipboard_writes (events (snd (main_copy_chunk_data (JArray [])
      \<lparr>stdin = [], dir_files = [], events = []\<rparr>))) = [] \<and>
   warnings (events (snd (main_copy_chunk_data (JArray [])
      \<lparr>stdin = [], dir_files = [], events = []\<rparr>))) \<noteq> [] \<and>
   main_copy_chunk_data (JObject [(''plugin_path'', JInt 1)])
      \<lparr>stdin = [], dir_files = [], events = []\<rparr> =
     (Inl AttributeError, \<lparr>stdin = [], dir_files = [], events = []\<rparr>)"
proof -
  let ?w = "\<lparr>stdin = [], dir_files = [], events = []\<rparr>"
  let ?x = "JObject [(''plugin_path'', JString ''reafir_standalone.dll''), (''chunk_data'', JString ''X'')]"
  let ?y = "JObject [(''plugin_path'', JString ''reafir_standalone.dll''), (''chunk_data'', JString ''Y'')]"
  have f1: "find_chunk_data_in_json (JArray [?x]) None = Inr [JString ''X'']"
    by (simp add: find_chunk_data_in_json_JObject find_chunk_data_in_json_JArray
        find_chunk_data_in_json_scalar dict_get_def dict_values_def endswith_def)
  have f2: "find_chunk_data_in_json (JArray [?x, ?y]) None = Inr [JString ''X'', JString ''Y'']"
    by (simp add: find_chunk_data_in_json_JObject find_chunk_data_in_json_JArray
        find_chunk_data_in_json_scalar dict_get_def dict_values_def endswith_def)
  have f0: "find_chunk_data_in_json (JArray []) None = Inr []"
    by (simp add: find_chunk_data_in_json_JArray)
  have fe: "find_chunk_data_in_json (JObject [(''plugin_path'', JInt 1)]) None = Inl AttributeError"
    by (simp add: find_chunk_data_in_json_JObject dict_get_def)
  from clipboard_written_iff_single_match [of "JArray [?x]" "[JString ''X'']" ?w] f1
  have t1: "clipboard_writes (events (snd (main_copy_chunk_data (JArray [?x]) ?w))) = [JString ''X'']"
    by auto
  from clipboard_written_iff_single_match [of "JArray [?x, ?y]" "[JString ''X'', JString ''Y'']" ?w] f2
  have t2: "clipboard_writes (events (snd (main_copy_chunk_data (JArray [?x, ?y]) ?w))) = [] \<and>
            warnings (events (snd (main_copy_chunk_data (JArray [?x, ?y]) ?w))) \<noteq> []"
    by auto
  from clipboard_written_iff_single_match [of "JArray []" "[]" ?w] f0
  have t0: "clipboard_writes (events (snd (main_copy_chunk_data (JArray []) ?w))) = [] \<and>
            warnings (events (snd (main_copy_chunk_data (JArray []) ?w))) \<noteq> []"
    by auto
  from clipboard_written_iff_single_match
         [of "JObject [(''plugin_path'', JInt 1)]" _ ?w AttributeError] fe
  have te: "main_copy_chunk_data (JObject [(''plugin_path'', JInt 1)]) ?w = (Inl AttributeError, ?w)"
    by simp
  from t1 t2 t0 te show ?thesis by simp
qed

section \<open>Duration formatter: the loop and the two largest units\<close>







section \<open>Log retention: the loop\<close>












section \<open>Log retention: claims\<close>











end
